theory Spec2Isabelle
  imports Main "HOL-Library.AList" "HOL-Library.Char_ord" "HOL-Library.List_Lexorder"
begin

section \<open>Python values used by both scripts\<close>

text \<open>
  A Python \<open>str\<close> is modelled as a HOL \<open>string\<close>; a \<open>char\<close> stands for a code point
  below 256. The whitespace removed by \<open>str.strip()\<close> and the letters changed by
  \<open>str.lower()\<close> are the ones Python has in that range. Python integers are unbounded
  and are modelled by \<open>nat\<close> (row indices and counts are never negative); \<open>int(s)\<close> raises
  \<open>ValueError\<close> on a text of more than 4300 digits, the default limit of the interpreter.
  A \<open>dict\<close> keeps insertion order, so it is an association list that is only ever changed
  through \<open>AList.update\<close> (an existing key keeps its position, a new key goes last).

  The standard library is not part of the repository. Where a script depends on what a
  library call returns, the call is a parameter of the model (the HTML tokenizer,
  \<open>json.dumps\<close>, \<open>json.load\<close>, the file system) or is written out from its documented
  behaviour (\<open>str.strip\<close>, the regular expression, \<open>Path.suffixes\<close>, \<open>Path.with_name\<close>,
  \<open>sorted\<close>). Every exception that reading a JSON file, parsing it, opening the output
  file or writing it can raise is an outcome in the model of the combiner.

  Names follow the source. \<open>parser_values\<close> is the field \<open>values\<close> of the parser,
  \<open>output_arg\<close>, \<open>output_file\<close> and \<open>directory_arg\<close> are the command line options
  \<open>--output\<close> and \<open>--directory\<close>, and \<open>main_extract\<close> and \<open>main_combine\<close> are the two
  functions \<open>main\<close>.
\<close>

definition isspace :: "char \<Rightarrow> bool" where
  "isspace c = ((of_char c :: nat) \<in> {9, 10, 11, 12, 13, 28, 29, 30, 31, 32, 133, 160})"

definition strip :: "string \<Rightarrow> string" where
  "strip s = rev (dropWhile isspace (rev (dropWhile isspace s)))"

definition lower_char :: "char \<Rightarrow> char" where
  "lower_char c =
     (let n = (of_char c :: nat)
      in if (65 \<le> n \<and> n \<le> 90) \<or> (192 \<le> n \<and> n \<le> 222 \<and> n \<noteq> 215)
         then char_of (n + 32) else c)"

definition lower :: "string \<Rightarrow> string" where
  "lower s = map lower_char s"

definition isdigit :: "char \<Rightarrow> bool" where
  "isdigit c = (48 \<le> (of_char c :: nat) \<and> (of_char c :: nat) \<le> 57)"

definition digit_char :: "nat \<Rightarrow> char" where
  "digit_char d = char_of (48 + d)"

text \<open>\<open>str(n)\<close>, the decimal text of a non-negative integer.\<close>

function str_nat :: "nat \<Rightarrow> string" where
  "str_nat n = (if n < 10 then [digit_char n] else str_nat (n div 10) @ [digit_char (n mod 10)])"
  by pat_completeness auto
termination
  by (relation "measure (\<lambda>n. n)") auto

declare str_nat.simps [simp del]

text \<open>The number a string of decimal digits stands for.\<close>

definition int_of_digits :: "string \<Rightarrow> nat" where
  "int_of_digits ds = foldl (\<lambda>n c. 10 * n + ((of_char c :: nat) - 48)) 0 ds"

text \<open>\<open>d.setdefault(k, v)\<close>: insert only when the key is missing.\<close>

definition setdefault :: "'k \<Rightarrow> 'v \<Rightarrow> ('k \<times> 'v) list \<Rightarrow> ('k \<times> 'v) list" where
  "setdefault k v d = (case map_of d k of None \<Rightarrow> AList.update k v d | Some _ \<Rightarrow> d)"

text \<open>\<open>dict(pairs)\<close>: later pairs overwrite earlier ones.\<close>

definition dict_of :: "('k \<times> 'v) list \<Rightarrow> ('k \<times> 'v) list" where
  "dict_of ps = fold (\<lambda>(k, v) d. AList.update k v d) ps []"

datatype error =
    KeyError string
  | FileNotFoundError string
  | NotADirectoryError string
  | IsADirectoryError string
  | RuntimeError string
  | ValueError string
  | UnicodeDecodeError string
  | UnicodeEncodeError string
  | RecursionError string
  | OSError string

text \<open>
  \<open>int(s)\<close> on a string of decimal digits: every digit counts towards the limit, leading
  zeros too.
\<close>

definition int_max_str_digits :: nat where
  "int_max_str_digits = 4300"

definition int_limit_error :: error where
  "int_limit_error =
     ValueError ''Exceeds the limit (4300 digits) for integer string conversion''"

definition py_int :: "string \<Rightarrow> error + nat" where
  "py_int ds =
     (if int_max_str_digits < length ds then Inl int_limit_error
      else Inr (int_of_digits ds))"

section \<open>extract\_contracts.py: the markup scanner\<close>

text \<open>
  \<open>ContractHTMLParser\<close> overrides three callbacks of \<open>html.parser.HTMLParser\<close>. The
  tokenizer of the standard library is not part of the repository: the model takes the
  sequence of callbacks it makes as a list of events. An attribute without a value has
  value \<open>None\<close>.
\<close>

datatype event =
    StartTag string "(string \<times> string option) list"
  | Data string
  | EndTag string

record parser_state =
  current_id :: "string option"
  parser_values :: "(string \<times> string) list"

definition init_parser :: parser_state where
  "init_parser = \<lparr>current_id = None, parser_values = []\<rparr>"

definition handle_starttag ::
  "parser_state \<Rightarrow> string \<Rightarrow> (string \<times> string option) list \<Rightarrow> parser_state" where
  "handle_starttag s tag attrs =
     (if lower tag \<noteq> ''span'' then s
      else case map_of (dict_of attrs) ''id'' of
             Some (Some element_id) \<Rightarrow>
               if element_id \<noteq> []
               then s\<lparr>current_id := Some element_id,
                      parser_values := setdefault element_id [] (parser_values s)\<rparr>
               else s
           | _ \<Rightarrow> s)"

definition handle_data :: "parser_state \<Rightarrow> string \<Rightarrow> error + parser_state" where
  "handle_data s data =
     (case current_id s of
        None \<Rightarrow> Inr s
      | Some cur \<Rightarrow>
          (if cur = [] then Inr s
           else let text = strip data
                in if text = [] then Inr s
                   else (case map_of (parser_values s) cur of
                           None \<Rightarrow> Inl (KeyError cur)
                         | Some old \<Rightarrow>
                             (if old \<noteq> []
                              then Inr (s\<lparr>parser_values :=
                                     AList.update cur (old @ '' '' @ text) (parser_values s)\<rparr>)
                              else Inr (s\<lparr>parser_values :=
                                     AList.update cur text (parser_values s)\<rparr>)))))"

definition handle_endtag :: "parser_state \<Rightarrow> string \<Rightarrow> parser_state" where
  "handle_endtag s tag = (if lower tag = ''span'' then s\<lparr>current_id := None\<rparr> else s)"

definition handle_event :: "parser_state \<Rightarrow> event \<Rightarrow> error + parser_state" where
  "handle_event s e =
     (case e of
        StartTag tag attrs \<Rightarrow> Inr (handle_starttag s tag attrs)
      | Data data \<Rightarrow> handle_data s data
      | EndTag tag \<Rightarrow> Inr (handle_endtag s tag))"

text \<open>\<open>parser.feed\<close>: the callbacks in document order; an exception ends the run.\<close>

fun feed :: "parser_state \<Rightarrow> event list \<Rightarrow> error + parser_state" where
  "feed s [] = Inr s"
| "feed s (e # es) = (case handle_event s e of Inl err \<Rightarrow> Inl err | Inr s' \<Rightarrow> feed s' es)"

section \<open>extract\_contracts.py: the record assembler\<close>

definition FIELD_ID_MAP :: "(string \<times> string) list" where
  "FIELD_ID_MAP =
     [(''contract_id'', ''Repeater1_lblCustomerId_{idx}''),
      (''contract_description'', ''Repeater1_lblContactName_{idx}''),
      (''contractor'', ''Repeater1_lblCountry_{idx}''),
      (''implementing_office'', ''Repeater1_Label5_{idx}''),
      (''source_of_funds'', ''Repeater1_Label6_{idx}''),
      (''contract_cost_php'', ''Repeater1_Label2_{idx}''),
      (''contract_effectivity_date'', ''Repeater1_Label3_{idx}''),
      (''contract_expiry_date'', ''Repeater1_Label4_{idx}''),
      (''status'', ''Repeater1_Label7_{idx}''),
      (''percent_accomplishment'', ''Repeater1_Label1_{idx}'')]"

definition startswith :: "string \<Rightarrow> string \<Rightarrow> bool" where
  "startswith s p = (take (length p) s = p)"

text \<open>
  \<open>INDEX_PATTERN.match\<close> for the pattern \<open>Repeater1_[^_]+_(\d+)$\<close>, anchored at the start
  of the identifier. The middle token is the longest run without an underscore and must
  not be empty, the digits are the longest run of digits, and \<open>$\<close> accepts the end of the
  string or a single line feed that ends the string. The result is \<open>match.group(1)\<close>, and
  \<open>None\<close> when the identifier does not match.
\<close>

definition index_match :: "string \<Rightarrow> string option" where
  "index_match element_id =
     (if \<not> startswith element_id ''Repeater1_'' then None
      else let rest = drop 10 element_id;
               middle = takeWhile (\<lambda>c. c \<noteq> CHR ''_'') rest;
               after = dropWhile (\<lambda>c. c \<noteq> CHR ''_'') rest
           in if middle = [] \<or> after = [] then None
              else let digits = takeWhile isdigit (tl after);
                       tail = dropWhile isdigit (tl after)
                   in if digits \<noteq> [] \<and> (tail = [] \<or> tail = [CHR 0x0A])
                      then Some digits else None)"

text \<open>
  The integers of the set comprehension, in the order the dictionary yields its keys:
  \<open>int(match.group(1))\<close> for every key that matches. The first key whose digits are over
  the limit ends the comprehension with \<open>ValueError\<close>.
\<close>

fun matched_indices_of :: "string list \<Rightarrow> error + nat list" where
  "matched_indices_of [] = Inr []"
| "matched_indices_of (element_id # rest) =
     (case index_match element_id of
        None \<Rightarrow> matched_indices_of rest
      | Some digits \<Rightarrow>
          (case py_int digits of
             Inl err \<Rightarrow> Inl err
           | Inr idx \<Rightarrow>
               (case matched_indices_of rest of
                  Inl err \<Rightarrow> Inl err
                | Inr idxs \<Rightarrow> Inr (idx # idxs))))"

definition matched_indices :: "(string \<times> string) list \<Rightarrow> error + nat list" where
  "matched_indices raw_values = matched_indices_of (map fst raw_values)"

text \<open>
  A Python \<open>set\<close> built from a sequence iterates over the distinct elements of the
  sequence in an order the language does not fix. The model takes that order as a
  parameter \<open>si\<close> and \<open>set_order\<close> says what every such order satisfies.
\<close>

definition set_order :: "(nat list \<Rightarrow> nat list) \<Rightarrow> bool" where
  "set_order si = (\<forall>xs. distinct (si xs) \<and> set (si xs) = set xs)"

definition indices ::
  "(nat list \<Rightarrow> nat list) \<Rightarrow> (string \<times> string) list \<Rightarrow> error + nat list" where
  "indices si raw_values =
     (case matched_indices raw_values of
        Inl err \<Rightarrow> Inl err
      | Inr matched \<Rightarrow> Inr (sort (si matched)))"

text \<open>\<open>id_template.format(idx=idx)\<close>: every \<open>{idx}\<close> is replaced by the decimal index.\<close>

function format_idx :: "string \<Rightarrow> nat \<Rightarrow> string" where
  "format_idx t idx =
     (if t = [] then []
      else if startswith t ''{idx}'' then str_nat idx @ format_idx (drop 5 t) idx
      else hd t # format_idx (tl t) idx)"
  by pat_completeness auto
termination
  by (relation "measure (\<lambda>(t, idx). length t)") auto

declare format_idx.simps [simp del]

type_synonym contract = "(string \<times> string option) list"

definition build_record :: "(string \<times> string) list \<Rightarrow> nat \<Rightarrow> contract" where
  "build_record raw_values idx =
     fold (\<lambda>(field, id_template) record.
             AList.update field
               (case map_of raw_values (format_idx id_template idx) of
                  Some v \<Rightarrow> Some v
                | None \<Rightarrow> None)
               record)
          FIELD_ID_MAP []"

text \<open>\<open>record.get("contract_id")\<close> is truthy: the key is there, not \<open>None\<close>, not empty.\<close>

definition has_contract_id :: "contract \<Rightarrow> bool" where
  "has_contract_id record =
     (case map_of record ''contract_id'' of
        Some (Some v) \<Rightarrow> v \<noteq> []
      | _ \<Rightarrow> False)"

fun assemble_rows :: "(string \<times> string) list \<Rightarrow> nat list \<Rightarrow> contract list" where
  "assemble_rows raw_values [] = []"
| "assemble_rows raw_values (idx # rest) =
     (let record = build_record raw_values idx
      in if has_contract_id record then record # assemble_rows raw_values rest
         else assemble_rows raw_values rest)"

definition assemble_contracts ::
  "(nat list \<Rightarrow> nat list) \<Rightarrow> (string \<times> string) list \<Rightarrow> error + contract list" where
  "assemble_contracts si raw_values =
     (case indices si raw_values of
        Inl err \<Rightarrow> Inl err
      | Inr idxs \<Rightarrow> Inr (assemble_rows raw_values idxs))"

text \<open>
  \<open>parse_contracts\<close>; \<open>tok\<close> is the tokenizer of \<open>html.parser\<close>, the callbacks that
  \<open>parser.feed(html_source)\<close> makes.
\<close>

definition parse_contracts ::
  "(nat list \<Rightarrow> nat list) \<Rightarrow> (string \<Rightarrow> event list) \<Rightarrow> string \<Rightarrow> error + contract list" where
  "parse_contracts si tok html_source =
     (case feed init_parser (tok html_source) of
        Inl err \<Rightarrow> Inl err
      | Inr parser \<Rightarrow> assemble_contracts si (parser_values parser))"

section \<open>extract\_contracts.py: the command line\<close>

text \<open>
  A \<open>pathlib.Path\<close> is its final component and what stands before it. \<open>suffixes\<close> and
  \<open>with_name\<close> follow the standard library: a name that ends in a dot has no suffix,
  leading dots are not separators, and \<open>with_name\<close> raises on a path without a final
  component. The new name is a single component here, as it is built from one.
\<close>

record path =
  path_parent :: string
  path_name :: string

fun split_dot :: "string \<Rightarrow> string list" where
  "split_dot [] = [[]]"
| "split_dot (c # cs) =
     (if c = CHR ''.'' then [] # split_dot cs
      else case split_dot cs of
             [] \<Rightarrow> [[c]]
           | w # ws \<Rightarrow> (c # w) # ws)"

definition suffixes :: "string \<Rightarrow> string list" where
  "suffixes nm =
     (if nm \<noteq> [] \<and> last nm = CHR ''.'' then []
      else map (\<lambda>suffix. CHR ''.'' # suffix)
             (tl (split_dot (dropWhile (\<lambda>c. c = CHR ''.'') nm))))"

definition with_name :: "path \<Rightarrow> string \<Rightarrow> error + path" where
  "with_name p new_name =
     (if path_name p = [] then Inl (ValueError ''empty name'')
      else Inr (p\<lparr>path_name := new_name\<rparr>))"



record extract_args =
  html_path :: string
  output_arg :: "string option"
  indent :: int

datatype action =
    WriteText path string
  | Print string

text \<open>
  \<open>main\<close> of the extractor. \<open>read_text\<close> gives the text of a regular file and \<open>None\<close> when
  \<open>is_file()\<close> is false; \<open>dumps\<close> is \<open>json.dumps\<close> with \<open>ensure_ascii=False\<close>; \<open>to_path\<close> is
  the constructor \<open>Path\<close>. The result is the one output action of the run.
\<close>

definition main_extract ::
  "(nat list \<Rightarrow> nat list) \<Rightarrow> (string \<Rightarrow> event list) \<Rightarrow> (contract list \<Rightarrow> int \<Rightarrow> string) \<Rightarrow>
   (string \<Rightarrow> path) \<Rightarrow> (string \<Rightarrow> string option) \<Rightarrow> extract_args \<Rightarrow> error + action" where
  "main_extract si tok dumps to_path read_text args =
     (case read_text (html_path args) of
        None \<Rightarrow> Inl (FileNotFoundError (''HTML file not found: '' @ html_path args))
      | Some html_source \<Rightarrow>
          (case parse_contracts si tok html_source of
             Inl err \<Rightarrow> Inl err
           | Inr contracts \<Rightarrow>
               let contract_count = length contracts;
                   json_payload = dumps contracts (indent args)
               in (case output_arg args of
                     None \<Rightarrow> Inr (Print json_payload)
                   | Some out \<Rightarrow>
                       if out = [] then Inr (Print json_payload)
                       else let output_path = to_path out;
                                suffix = concat (suffixes (path_name output_path));
                                base_name =
                                  (if suffix \<noteq> []
                                   then take (length (path_name output_path) - length suffix)
                                          (path_name output_path)
                                   else path_name output_path);
                                new_name = base_name @ ''_'' @ str_nat contract_count @ suffix
                            in (case with_name output_path new_name of
                                  Inl err \<Rightarrow> Inl err
                                | Inr final_path \<Rightarrow>
                                    Inr (WriteText final_path (json_payload @ [CHR 0x0A]))))))"

section \<open>combine\_json.py\<close>

text \<open>
  A parsed JSON value, as \<open>json.load\<close> returns it: \<open>JArr\<close> is a Python \<open>list\<close>, the only
  value for which \<open>isinstance(data, list)\<close> holds. A float is kept as its literal.
\<close>

datatype json =
    JNull
  | JBool bool
  | JInt int
  | JFloat string
  | JStr string
  | JArr "json list"
  | JObj "(string \<times> json) list"

text \<open>
  What opening a file and \<open>json.load\<close> on it come to: the parsed value, a
  \<open>JSONDecodeError\<close> (the text is not JSON), or any other exception, which the source does
  not catch: \<open>UnicodeDecodeError\<close> for a file that is not UTF-8, \<open>ValueError\<close> for an
  integer of more than 4300 digits, \<open>RecursionError\<close> for nesting that is too deep, an
  \<open>OSError\<close> of \<open>open\<close>.
\<close>

datatype load_outcome =
    Loaded json
  | JSONDecodeError
  | Raised error

text \<open>
  What an output file holds after the run: the whole text of a value, or, when
  \<open>json.dump\<close> raised after \<open>open("w")\<close> had emptied the file, only a part of the text.
\<close>

datatype content =
    Complete json
  | Truncated

text \<open>
  The file system and the library as the combiner sees them. Paths are strings in POSIX
  form. \<open>listdir d\<close> are the names directly under \<open>d\<close>, in the order the system lists
  them; \<open>json_load p\<close> is the outcome of opening the file at \<open>p\<close> and of \<open>json.load\<close> on
  it; \<open>mkdir_error p\<close> is the exception of \<open>p.parent.mkdir(parents=True, exist_ok=True)\<close>,
  if it raises; \<open>open_error p\<close> is the exception of \<open>p.open("w")\<close> on a path that is not a
  directory, if it raises; \<open>dump_error v\<close> is the exception \<open>json.dump\<close> raises part-way
  through \<open>v\<close>, if it does (\<open>UnicodeEncodeError\<close> for a string with a lone surrogate).
  \<open>written\<close> holds what each file the run has opened for writing holds, \<open>made_dirs\<close> the
  paths whose parent directories were created, and \<open>stdout\<close> the lines printed.
\<close>

record world =
  is_dir :: "string \<Rightarrow> bool"
  listdir :: "string \<Rightarrow> string list"
  resolve :: "string \<Rightarrow> string"
  json_load :: "string \<Rightarrow> load_outcome"
  mkdir_error :: "string \<Rightarrow> error option"
  open_error :: "string \<Rightarrow> error option"
  dump_error :: "json \<Rightarrow> error option"
  written :: "(string \<times> content) list"
  made_dirs :: "string list"
  stdout :: "string list"

record combine_args =
  directory_arg :: string
  output_file :: string

definition endswith :: "string \<Rightarrow> string \<Rightarrow> bool" where
  "endswith s p = (length p \<le> length s \<and> drop (length s - length p) s = p)"

definition is_absolute :: "string \<Rightarrow> bool" where
  "is_absolute p = startswith p ''/''"

text \<open>The path of the entry \<open>n\<close> of the directory \<open>d\<close>.\<close>

definition joinpath :: "string \<Rightarrow> string \<Rightarrow> string" where
  "joinpath d n = (if endswith d ''/'' then d @ n else d @ ''/'' @ n)"

text \<open>
  \<open>directory / args.output\<close> for a relative output. The arguments are the texts of the
  paths \<open>argparse\<close> makes of the options (\<open>type=Path\<close>), which have no empty component
  and no component \<open>.\<close>; the path without components is \<open>.\<close>, and joined to the
  directory it is the directory itself.
\<close>

definition path_div :: "string \<Rightarrow> string \<Rightarrow> string" where
  "path_div d rel = (if rel = [] \<or> rel = ''.'' then d else joinpath d rel)"

text \<open>\<open>directory.glob("*.json")\<close>: the entries of the directory whose name ends in \<open>.json\<close>.\<close>

definition glob_json :: "world \<Rightarrow> string \<Rightarrow> string list" where
  "glob_json w d = map (joinpath d) (filter (\<lambda>n. endswith n ''.json'') (listdir w d))"

definition collect_json_files :: "world \<Rightarrow> string \<Rightarrow> string \<Rightarrow> string list" where
  "collect_json_files w directory output_path =
     (let json_files = sort (glob_json w directory)
      in filter (\<lambda>p. resolve w p \<noteq> resolve w output_path) json_files)"

definition load_json_as_list :: "world \<Rightarrow> string \<Rightarrow> error + json list" where
  "load_json_as_list w p =
     (case json_load w p of
        JSONDecodeError \<Rightarrow> Inl (RuntimeError (''Failed to parse '' @ p))
      | Raised err \<Rightarrow> Inl err
      | Loaded data \<Rightarrow>
          (case data of
             JArr items \<Rightarrow> Inr items
           | _ \<Rightarrow> Inr [data]))"

text \<open>
  \<open>write_combined_json\<close>: the parent directories are made, the file is opened for writing,
  which empties it and fails on a directory, and \<open>json.dump\<close> writes the text piece by
  piece, so that an exception of \<open>json.dump\<close> leaves a part of the text in the file.
\<close>

definition write_combined_json ::
  "world \<Rightarrow> string \<Rightarrow> json list \<Rightarrow> (error + unit) \<times> world" where
  "write_combined_json w output_path entries =
     (case mkdir_error w output_path of
        Some err \<Rightarrow> (Inl err, w)
      | None \<Rightarrow>
          let w1 = w\<lparr>made_dirs := made_dirs w @ [output_path]\<rparr>
          in if is_dir w output_path then (Inl (IsADirectoryError output_path), w1)
             else (case open_error w output_path of
                     Some err \<Rightarrow> (Inl err, w1)
                   | None \<Rightarrow>
                       (case dump_error w (JArr entries) of
                          Some err \<Rightarrow>
                            (Inl err,
                             w1\<lparr>written := AList.update output_path Truncated (written w1)\<rparr>)
                        | None \<Rightarrow>
                            (Inr (),
                             w1\<lparr>written :=
                                  AList.update output_path (Complete (JArr entries))
                                    (written w1)\<rparr>))))"

text \<open>The loop of \<open>main\<close>: \<open>combined.extend(load_json_as_list(json_file))\<close> for each file.\<close>

fun load_all :: "world \<Rightarrow> string list \<Rightarrow> json list \<Rightarrow> error + json list" where
  "load_all w [] combined = Inr combined"
| "load_all w (json_file # rest) combined =
     (case load_json_as_list w json_file of
        Inl err \<Rightarrow> Inl err
      | Inr items \<Rightarrow> load_all w rest (combined @ items))"

definition summary :: "nat \<Rightarrow> string \<Rightarrow> nat \<Rightarrow> string" where
  "summary n_files output_path n_items =
     ''Combined '' @ str_nat n_files @ '' file(s) into '' @ output_path @ '' with ''
       @ str_nat n_items @ '' item(s).''"

definition main_combine :: "combine_args \<Rightarrow> world \<Rightarrow> (error + unit) \<times> world" where
  "main_combine args w =
     (let directory = resolve w (directory_arg args);
          output_path = (if is_absolute (output_file args) then output_file args
                         else path_div directory (output_file args))
      in if \<not> is_dir w directory
         then (Inl (NotADirectoryError (''Directory does not exist: '' @ directory)), w)
         else let json_files = collect_json_files w directory output_path
              in (case load_all w json_files [] of
                    Inl err \<Rightarrow> (Inl err, w)
                  | Inr combined \<Rightarrow>
                      (case write_combined_json w output_path combined of
                         (Inl err, w') \<Rightarrow> (Inl err, w')
                       | (Inr u, w') \<Rightarrow>
                           (Inr (),
                            w'\<lparr>stdout := stdout w' @
                                 [summary (length json_files) output_path
                                    (length combined)]\<rparr>))))"

section \<open>Notions used to state the properties\<close>

text \<open>
  What holds of every state the scanner reaches: an open identifier is not empty and has
  an entry, and no accumulated text starts or ends with whitespace.
\<close>

definition state_ok :: "parser_state \<Rightarrow> bool" where
  "state_ok s =
     ((case current_id s of
         None \<Rightarrow> True
       | Some k \<Rightarrow> k \<noteq> [] \<and> map_of (parser_values s) k \<noteq> None)
      \<and> list_all (\<lambda>(k, v). strip v = v) (parser_values s))"

text \<open>\<open>" ".join(words)\<close>.\<close>

fun join_words :: "string list \<Rightarrow> string" where
  "join_words [] = []"
| "join_words [w] = w"
| "join_words (w # v # ws) = w @ '' '' @ join_words (v # ws)"

text \<open>The last \<open>id\<close> attribute of a start tag that carries a value.\<close>

definition id_of :: "(string \<times> string option) list \<Rightarrow> string option" where
  "id_of attrs = (case map_of (rev attrs) ''id'' of Some (Some v) \<Rightarrow> Some v | _ \<Rightarrow> None)"

text \<open>
  Events that neither open an identified span nor close a span: text, tags of other
  elements, and span start tags without an identifier.
\<close>

definition neutral :: "event \<Rightarrow> bool" where
  "neutral e =
     (case e of
        StartTag tag attrs \<Rightarrow> lower tag \<noteq> ''span'' \<or> id_of attrs = None \<or> id_of attrs = Some []
      | Data d \<Rightarrow> True
      | EndTag tag \<Rightarrow> lower tag \<noteq> ''span'')"

fun data_of :: "event list \<Rightarrow> string list" where
  "data_of [] = []"
| "data_of (e # es) = (case e of Data d \<Rightarrow> d # data_of es | _ \<Rightarrow> data_of es)"

text \<open>The bytes a run emits: \<open>print\<close> ends its line, \<open>write_text\<close> writes the text as it is.\<close>

definition emitted_bytes :: "action \<Rightarrow> string" where
  "emitted_bytes a = (case a of WriteText p t \<Rightarrow> t | Print t \<Rightarrow> t @ [CHR 0x0A])"

text \<open>The row index an identifier stands for, when it matches the index pattern.\<close>

definition row_index :: "string \<Rightarrow> nat option" where
  "row_index k = map_option int_of_digits (index_match k)"

text \<open>No identifier of the mapping matches the index pattern with more digits than \<open>int\<close> takes.\<close>

definition digits_ok :: "(string \<times> string) list \<Rightarrow> bool" where
  "digits_ok raw =
     list_all (\<lambda>k. case index_match k of
                      None \<Rightarrow> True
                    | Some ds \<Rightarrow> length ds \<le> int_max_str_digits)
       (map fst raw)"

text \<open>Loading the file raises.\<close>

definition load_fails :: "world \<Rightarrow> string \<Rightarrow> bool" where
  "load_fails w p = (case json_load w p of Loaded v \<Rightarrow> False | _ \<Rightarrow> True)"

text \<open>
  The output file can be written: its parent directories can be made, it is not a
  directory, it can be opened, and \<open>json.dump\<close> gets through the value.
\<close>

definition writable :: "world \<Rightarrow> string \<Rightarrow> json \<Rightarrow> bool" where
  "writable w p v =
     (mkdir_error w p = None \<and> \<not> is_dir w p \<and> open_error w p = None \<and>
      dump_error w v = None)"

text \<open>
  A small directory used to run the combiner: \<open>/data\<close> holds the given names; \<open>a.json\<close>
  is the array \<open>[1, 2]\<close>, \<open>b.json\<close> the object \<open>{"x": 1}\<close>, \<open>c.json\<close> the array \<open>[3]\<close>,
  and \<open>all.json\<close>, when the directory holds it, the array \<open>["old"]\<close> of an earlier run;
  \<open>latin1.json\<close> is not UTF-8, so reading it raises \<open>UnicodeDecodeError\<close>; \<open>big.json\<close>
  holds an integer of 5000 digits, for which \<open>json.load\<close> raises \<open>ValueError\<close>;
  \<open>s.json\<close> is the array of 1, 2, a string that is the lone surrogate U+D800 (no \<open>char\<close>
  can hold it, a description stands for it) and 3, which \<open>json.load\<close> accepts and
  \<open>json.dump\<close> cannot encode; every other file is not JSON.
\<close>

definition demo_world :: "string list \<Rightarrow> world" where
  "demo_world names =
     \<lparr>is_dir = (\<lambda>d. d = ''/data''),
      listdir = (\<lambda>d. if d = ''/data'' then names else []),
      resolve = (\<lambda>p. p),
      json_load = (\<lambda>p. if p = ''/data/a.json'' then Loaded (JArr [JInt 1, JInt 2])
                        else if p = ''/data/b.json'' then Loaded (JObj [(''x'', JInt 1)])
                        else if p = ''/data/c.json'' then Loaded (JArr [JInt 3])
                        else if p = ''/data/all.json'' then Loaded (JArr [JStr ''old''])
                        else if p = ''/data/s.json''
                          then Loaded (JArr [JInt 1, JInt 2, JStr ''lone surrogate U+D800'', JInt 3])
                        else if p = ''/data/latin1.json''
                          then Raised (UnicodeDecodeError
                                 ''utf-8 codec cannot decode byte 0xe9 in position 5'')
                        else if p = ''/data/big.json''
                          then Raised (ValueError
                                 ''Exceeds the limit (4300 digits) for integer string conversion'')
                        else JSONDecodeError),
      mkdir_error = (\<lambda>p. None),
      open_error = (\<lambda>p. None),
      dump_error = (\<lambda>v. if v = JArr [JInt 1, JInt 2, JStr ''lone surrogate U+D800'', JInt 3]
                         then Some (UnicodeEncodeError
                                ''utf-8 codec cannot encode character U+D800 in position 5'')
                         else None),
      written = (if ''all.json'' \<in> set names
                 then [(''/data/all.json'', Complete (JArr [JStr ''old'']))] else []),
      made_dirs = [], stdout = []\<rparr>"

section \<open>The markup scanner never fails\<close>

lemma strip_Nil: "strip [] = []"
  by (simp add: strip_def)

lemma strip_fixed_iff: "strip s = s \<longleftrightarrow> s = [] \<or> (\<not> isspace (hd s) \<and> \<not> isspace (last s))"
proof (cases "s = []")
  case True then show ?thesis by (simp add: strip_def)
next
  case False
  show ?thesis
  proof
    assume a: "strip s = s"
    have h: "\<not> isspace (hd s)"
    proof
      assume "isspace (hd s)"
      then have "length (dropWhile isspace s) < length s" using False
        by (cases s) (auto simp: le_imp_less_Suc length_dropWhile_le)
      moreover have "length (strip s) \<le> length (dropWhile isspace s)"
        unfolding strip_def by (simp add: length_dropWhile_le order_trans[OF length_dropWhile_le])
      ultimately show False using a by simp
    qed
    have l: "\<not> isspace (last s)"
    proof
      assume sp: "isspace (last s)"
      from h False have d: "dropWhile isspace s = s" by (cases s) auto
      from sp False have "length (dropWhile isspace (rev s)) < length s"
        by (cases "rev s") (auto simp: le_imp_less_Suc length_dropWhile_le last_rev hd_rev dest: arg_cong[where f=rev])
      then show False using a d by (simp add: strip_def) (metis length_rev less_irrefl)
    qed
    from h l show "s = [] \<or> (\<not> isspace (hd s) \<and> \<not> isspace (last s))" by simp
  next
    assume "s = [] \<or> (\<not> isspace (hd s) \<and> \<not> isspace (last s))"
    with False have h: "\<not> isspace (hd s)" and l: "\<not> isspace (last s)" by auto
    from h False have d: "dropWhile isspace s = s" by (cases s) auto
    from l False have "dropWhile isspace (rev s) = rev s" by (cases "rev s") (auto simp: hd_rev)
    with d show "strip s = s" by (simp add: strip_def)
  qed
qed


lemma strip_ends: "strip s \<noteq> [] \<Longrightarrow> \<not> isspace (hd (strip s)) \<and> \<not> isspace (last (strip s))"
proof -
  assume ne: "strip s \<noteq> []"
  let ?t = "dropWhile isspace s"
  let ?u = "dropWhile isspace (rev ?t)"
  have su: "strip s = rev ?u" by (simp add: strip_def)
  with ne have une: "?u \<noteq> []" by simp
  then have "\<not> isspace (hd ?u)" by (rule hd_dropWhile)
  then have l: "\<not> isspace (last (strip s))" using une by (simp add: su last_rev)
  have t: "?t = strip s @ rev (takeWhile isspace (rev ?t))"
    unfolding strip_def by (metis rev_append rev_rev_ident takeWhile_dropWhile_id)
  then have tne: "?t \<noteq> []" using ne by (metis append_is_Nil_conv)
  then have "\<not> isspace (hd ?t)" by (rule hd_dropWhile)
  moreover have "hd ?t = hd (strip s)" using t ne by (metis hd_append2)
  ultimately show ?thesis using l by simp
qed

lemma strip_strip: "strip (strip s) = strip s"
  using strip_ends[of s] by (auto simp: strip_fixed_iff)

lemma strip_join: "a \<noteq> [] \<Longrightarrow> strip a = a \<Longrightarrow> b \<noteq> [] \<Longrightarrow> strip b = b \<Longrightarrow> strip (a @ CHR '' '' # b) = a @ CHR '' '' # b"
  by (auto simp: strip_fixed_iff)

lemma list_all_update:
  "list_all P al \<Longrightarrow> P (k, v) \<Longrightarrow> list_all P (AList.update k v al)"
  by (induction al) auto

lemma map_of_setdefault:
  "map_of (setdefault k v d) k' = (if k' = k \<and> map_of d k = None then Some v else map_of d k')"
  by (auto simp: setdefault_def update_conv' split: option.splits)

lemma list_all_setdefault:
  "list_all P al \<Longrightarrow> P (k, v) \<Longrightarrow> list_all P (setdefault k v al)"
  by (auto simp: setdefault_def list_all_update split: option.splits)

lemma map_of_list_all: "list_all P al \<Longrightarrow> map_of al k = Some v \<Longrightarrow> P (k, v)"
  by (induction al) (auto split: if_splits)

lemma starttag_ok: "state_ok s \<Longrightarrow> state_ok (handle_starttag s tag attrs)"
  by (auto simp: state_ok_def handle_starttag_def map_of_setdefault list_all_setdefault strip_Nil
      split: option.splits)

lemma endtag_ok: "state_ok s \<Longrightarrow> state_ok (handle_endtag s tag)"
  by (auto simp: state_ok_def handle_endtag_def)

lemma open_id_has_entry:
  assumes "state_ok s" and "current_id s = Some k"
  shows "k \<noteq> [] \<and> (\<exists>acc. map_of (parser_values s) k = Some acc \<and> strip acc = acc)"
proof -
  from assms obtain acc where acc: "map_of (parser_values s) k = Some acc" and k: "k \<noteq> []"
    by (auto simp: state_ok_def)
  from assms(1) have "list_all (\<lambda>(k, v). strip v = v) (parser_values s)"
    by (simp add: state_ok_def)
  from map_of_list_all[OF this acc] have "strip acc = acc" by simp
  with acc k show ?thesis by simp
qed

lemma handle_data_value:
  assumes "state_ok s" and "current_id s = Some k" and "map_of (parser_values s) k = Some acc"
  shows "handle_data s d =
          Inr (if strip d = [] then s
               else s\<lparr>parser_values :=
                      AList.update k (if acc = [] then strip d else acc @ '' '' @ strip d)
                        (parser_values s)\<rparr>)"
proof -
  from open_id_has_entry[OF assms(1,2)] have "k \<noteq> []" by simp
  with assms(2,3) show ?thesis by (simp add: handle_data_def Let_def)
qed

lemma data_ok: "state_ok s \<Longrightarrow> \<exists>s'. handle_data s d = Inr s' \<and> state_ok s' \<and> current_id s' = current_id s"
proof (cases "current_id s")
  case None
  assume "state_ok s"
  with None show ?thesis by (simp add: handle_data_def)
next
  case (Some k)
  assume ok: "state_ok s"
  from open_id_has_entry[OF ok Some] obtain acc where
    acc: "map_of (parser_values s) k = Some acc" "strip acc = acc" and k: "k \<noteq> []" by blast
  define acc' where "acc' = (if acc = [] then strip d else acc @ '' '' @ strip d)"
  have h: "handle_data s d =
          Inr (if strip d = [] then s
               else s\<lparr>parser_values := AList.update k acc' (parser_values s)\<rparr>)"
    unfolding acc'_def by (rule handle_data_value[OF ok Some acc(1)])
  show ?thesis
  proof (cases "strip d = []")
    case True
    with h ok show ?thesis by simp
  next
    case False
    have "strip acc' = acc'"
      using acc(2) False by (simp add: acc'_def strip_strip strip_join)
    then have "state_ok (s\<lparr>parser_values := AList.update k acc' (parser_values s)\<rparr>)"
      using ok Some k by (simp add: state_ok_def update_conv' list_all_update)
    with h False show ?thesis by simp
  qed
qed

lemma feed_ok: "state_ok s \<Longrightarrow> \<exists>s'. feed s es = Inr s' \<and> state_ok s'"
proof (induction es arbitrary: s)
  case Nil
  then show ?case by simp
next
  case (Cons e es)
  show ?case
  proof (cases e)
    case (StartTag tag attrs)
    with Cons.IH[OF starttag_ok[OF Cons.prems, of tag attrs]] show ?thesis
      by (simp add: handle_event_def)
  next
    case (Data d)
    from data_ok[OF Cons.prems, of d] obtain s1 where "handle_data s d = Inr s1" "state_ok s1" by blast
    with Cons.IH[of s1] Data show ?thesis by (simp add: handle_event_def)
  next
    case (EndTag tag)
    with Cons.IH[OF endtag_ok[OF Cons.prems, of tag]] show ?thesis
      by (simp add: handle_event_def)
  qed
qed

lemma init_ok: "state_ok init_parser"
  by (simp add: state_ok_def init_parser_def)

lemma feed_reach_ok: "state_ok s \<Longrightarrow> feed s es = Inr s' \<Longrightarrow> state_ok s'"
  using feed_ok[of s es] by auto


section \<open>Text between neutral events\<close>

lemma map_of_fold_update:
  "map_of (fold (\<lambda>(k, v) d. AList.update k v d) ps d) k =
     (case map_of (rev ps) k of Some v \<Rightarrow> Some v | None \<Rightarrow> map_of d k)"
proof (induction ps arbitrary: d)
  case Nil
  then show ?case by simp
next
  case (Cons p ps)
  obtain a b where p: "p = (a, b)" by (cases p)
  show ?case
    by (simp add: Cons.IH p update_conv' map_add_def split: option.splits)
qed

lemma map_of_dict_of: "map_of (dict_of attrs) k = map_of (rev attrs) k"
  by (simp add: dict_of_def map_of_fold_update split: option.splits)

lemma starttag_neutral:
  "lower tag \<noteq> ''span'' \<or> id_of attrs = None \<or> id_of attrs = Some [] \<Longrightarrow>
   handle_starttag s tag attrs = s"
  by (auto simp: handle_starttag_def id_of_def map_of_dict_of split: option.splits)

lemma join_words_Cons:
  "join_words (w # ws) = (if ws = [] then w else w @ '' '' @ join_words ws)"
  by (cases ws) auto

lemma join_step:
  assumes "t \<noteq> []"
  shows "join_words (filter (\<lambda>w. w \<noteq> []) ((if acc = [] then t else acc @ '' '' @ t) # ws))
       = join_words (filter (\<lambda>w. w \<noteq> []) (acc # t # ws))"
  using assms by (auto simp: join_words_Cons)



lemma feed_neutral:
  assumes "state_ok s" and "current_id s = Some k" and "map_of (parser_values s) k = Some acc"
    and "list_all neutral es"
  shows "\<exists>s'. feed s es = Inr s' \<and> state_ok s' \<and> current_id s' = Some k \<and>
           map_of (parser_values s') k =
             Some (join_words (filter (\<lambda>w. w \<noteq> []) (acc # map strip (data_of es))))"
  using assms
proof (induction es arbitrary: s acc)
  case Nil
  then show ?case by (simp add: join_words_Cons)
next
  case (Cons e es)
  from Cons.prems(4) have ne: "neutral e" and nes: "list_all neutral es" by simp_all
  show ?case
  proof (cases e)
    case (StartTag tag attrs)
    from ne have "handle_starttag s tag attrs = s"
      unfolding StartTag by (intro starttag_neutral) (simp add: neutral_def)
    then have f: "feed s (e # es) = feed s es" by (simp add: StartTag handle_event_def)
    have d: "data_of (e # es) = data_of es" by (simp add: StartTag)
    from Cons.IH[OF Cons.prems(1,2,3) nes] show ?thesis unfolding f d .
  next
    case (EndTag tag)
    from ne have "handle_endtag s tag = s"
      by (simp add: EndTag neutral_def handle_endtag_def)
    then have f: "feed s (e # es) = feed s es" by (simp add: EndTag handle_event_def)
    have d: "data_of (e # es) = data_of es" by (simp add: EndTag)
    from Cons.IH[OF Cons.prems(1,2,3) nes] show ?thesis unfolding f d .
  next
    case (Data d)
    have dd: "data_of (e # es) = d # data_of es" by (simp add: Data)
    have h: "handle_data s d =
          Inr (if strip d = [] then s
               else s\<lparr>parser_values :=
                      AList.update k (if acc = [] then strip d else acc @ '' '' @ strip d)
                        (parser_values s)\<rparr>)"
      by (rule handle_data_value[OF Cons.prems(1,2,3)])
    from data_ok[OF Cons.prems(1), of d] obtain s1 where
      s1: "handle_data s d = Inr s1" "state_ok s1" "current_id s1 = current_id s" by blast
    have f: "feed s (e # es) = feed s1 es" by (simp add: Data handle_event_def s1(1))
    have c1: "current_id s1 = Some k" using s1(3) Cons.prems(2) by simp
    show ?thesis
    proof (cases "strip d = []")
      case True
      with h s1(1) have "s1 = s" by simp
      with f have f': "feed s (e # es) = feed s es" by simp
      have j0: "filter (\<lambda>w. w \<noteq> []) (acc # map strip (d # data_of es))
          = filter (\<lambda>w. w \<noteq> []) (acc # map strip (data_of es))"
        using True by simp
      from Cons.IH[OF Cons.prems(1,2,3) nes] show ?thesis unfolding f' dd j0 .
    next
      case False
      define acc' where "acc' = (if acc = [] then strip d else acc @ '' '' @ strip d)"
      from h s1(1) False have "s1 = s\<lparr>parser_values := AList.update k acc' (parser_values s)\<rparr>"
        by (simp add: acc'_def)
      then have v: "map_of (parser_values s1) k = Some acc'"
        by (simp add: update_conv')
      have j: "join_words (filter (\<lambda>w. w \<noteq> []) (acc' # map strip (data_of es)))
          = join_words (filter (\<lambda>w. w \<noteq> []) (acc # map strip (d # data_of es)))"
        unfolding acc'_def using join_step[OF False, of acc "map strip (data_of es)"] by simp
      from Cons.IH[OF s1(2) c1 v nes] show ?thesis unfolding f dd j .
    qed
  qed
qed

lemma Data_neutral: "list_all neutral (map Data ds)"
  by (induction ds) (auto simp: neutral_def)

lemma data_of_Data: "data_of (map Data ds) = ds"
  by (induction ds) auto


section \<open>Claims about the markup scanner\<close>

text \<open>
  C6. In every state the scanner reaches from the initial one, with an identifier \<open>k\<close>
  open: the identifier has an accumulated string \<open>acc\<close>; a text event whose trimmed text is
  not empty stores the trimmed text itself when \<open>acc\<close> is empty and \<open>acc\<close>, one space and
  the trimmed text otherwise; a run of text events leaves under \<open>k\<close> the non-empty trimmed
  fragments joined by single spaces after \<open>acc\<close>, and the result has no whitespace at
  either end.
\<close>

theorem text_event_appends_trimmed:
  assumes "feed init_parser evs = Inr s" and "current_id s = Some k"
  shows "\<exists>acc. map_of (parser_values s) k = Some acc \<and>
     (strip d \<noteq> [] \<longrightarrow>
        handle_data s d =
          Inr (s\<lparr>parser_values :=
                 AList.update k (if acc = [] then strip d else acc @ '' '' @ strip d)
                   (parser_values s)\<rparr>)) \<and>
     (\<exists>s'. feed s (map Data ds) = Inr s' \<and> current_id s' = Some k \<and>
        map_of (parser_values s') k =
          Some (join_words (filter (\<lambda>w. w \<noteq> []) (acc # map strip ds))) \<and>
        strip (join_words (filter (\<lambda>w. w \<noteq> []) (acc # map strip ds)))
          = join_words (filter (\<lambda>w. w \<noteq> []) (acc # map strip ds)))"
proof -
  from feed_reach_ok[OF init_ok assms(1)] have ok: "state_ok s" .
  from open_id_has_entry[OF ok assms(2)] obtain acc where
    acc: "map_of (parser_values s) k = Some acc" by blast
  have one: "strip d \<noteq> [] \<longrightarrow>
        handle_data s d =
          Inr (s\<lparr>parser_values :=
                 AList.update k (if acc = [] then strip d else acc @ '' '' @ strip d)
                   (parser_values s)\<rparr>)"
    using handle_data_value[OF ok assms(2) acc, of d] by simp
  from feed_neutral[OF ok assms(2) acc Data_neutral, of ds]
  obtain s' where s': "feed s (map Data ds) = Inr s'" "state_ok s'" "current_id s' = Some k"
    "map_of (parser_values s') k =
       Some (join_words (filter (\<lambda>w. w \<noteq> []) (acc # map strip ds)))"
    unfolding data_of_Data by blast
  from open_id_has_entry[OF s'(2,3)] s'(4)
  have "strip (join_words (filter (\<lambda>w. w \<noteq> []) (acc # map strip ds)))
          = join_words (filter (\<lambda>w. w \<noteq> []) (acc # map strip ds))" by auto
  with acc one s' show ?thesis by blast
qed

theorem text_event_appends_trimmed_witness:
  "feed init_parser [StartTag ''span'' [(''id'', Some ''x'')]]
     = Inr \<lparr>current_id = Some ''x'', parser_values = [(''x'', [])]\<rparr> \<and>
   handle_data \<lparr>current_id = Some ''x'', parser_values = [(''x'', [])]\<rparr> '' a ''
     = Inr \<lparr>current_id = Some ''x'', parser_values = [(''x'', ''a'')]\<rparr> \<and>
   feed \<lparr>current_id = Some ''x'', parser_values = [(''x'', [])]\<rparr>
           (map Data ['' a '', ''  '', ''b  c ''])
     = Inr \<lparr>current_id = Some ''x'', parser_values = [(''x'', ''a b  c'')]\<rparr>"
proof -
  let ?s = "\<lparr>current_id = Some ''x'', parser_values = [(''x'', [])]\<rparr>"
  have h1: "feed init_parser [StartTag ''span'' [(''id'', Some ''x'')]] = Inr ?s"
    by code_simp
  have h2: "current_id ?s = Some ''x''" by simp
  have e1: "strip '' a '' = ''a''" by code_simp
  have e2: "map strip ['' a '', ''  '', ''b  c ''] = [''a'', [], ''b  c'']" by code_simp
  from text_event_appends_trimmed[OF h1 h2, of "'' a ''" "['' a '', ''  '', ''b  c '']"]
  obtain s' where
    a: "handle_data ?s '' a '' = Inr (?s\<lparr>parser_values := AList.update ''x'' ''a'' (parser_values ?s)\<rparr>)"
    and b: "feed ?s (map Data ['' a '', ''  '', ''b  c '']) = Inr s'" "current_id s' = Some ''x''"
      "map_of (parser_values s') ''x'' = Some ''a b  c''"
    unfolding e1 e2 by auto
  have c: "feed ?s (map Data ['' a '', ''  '', ''b  c ''])
     = Inr \<lparr>current_id = Some ''x'', parser_values = [(''x'', ''a b  c'')]\<rparr>"
    by code_simp
  from h1 a c show ?thesis by simp
qed

text \<open>
  C9. A start tag that is not a span, or a span whose last \<open>id\<close> attribute is missing,
  has no value or is the empty string, leaves every scanner state as it is. So, with an
  identifier \<open>k\<close> open in a reachable state, text that follows such a tag (through any
  further tags of other elements, span start tags without an identifier and end tags of
  other elements) is still appended to the text of \<open>k\<close>, and \<open>k\<close> stays open until the
  end tag of a span clears it.
\<close>

theorem starttag_without_id_keeps_state:
  assumes "lower tag \<noteq> ''span'' \<or> id_of attrs = None \<or> id_of attrs = Some []"
    and "feed init_parser evs = Inr s" and "current_id s = Some k"
    and "list_all neutral es"
  shows "(\<forall>s0. handle_starttag s0 tag attrs = s0) \<and>
         (\<exists>acc s'. map_of (parser_values s) k = Some acc \<and>
            feed s (StartTag tag attrs # es) = Inr s' \<and>
            current_id s' = Some k \<and>
            map_of (parser_values s') k =
              Some (join_words (filter (\<lambda>w. w \<noteq> []) (acc # map strip (data_of es)))) \<and>
            current_id (handle_endtag s' ''span'') = None)"
proof -
  from assms(1) have st: "\<forall>s0. handle_starttag s0 tag attrs = s0"
    by (simp add: starttag_neutral)
  from feed_reach_ok[OF init_ok assms(2)] have ok: "state_ok s" .
  from open_id_has_entry[OF ok assms(3)] obtain acc where
    acc: "map_of (parser_values s) k = Some acc" by blast
  from st have f: "feed s (StartTag tag attrs # es) = feed s es"
    by (simp add: handle_event_def)
  from feed_neutral[OF ok assms(3) acc assms(4)]
  obtain s' where s': "feed s es = Inr s'" "current_id s' = Some k"
    "map_of (parser_values s') k =
       Some (join_words (filter (\<lambda>w. w \<noteq> []) (acc # map strip (data_of es))))"
    by blast
  have "lower ''span'' = ''span''" by code_simp
  then have "current_id (handle_endtag s' ''span'') = None"
    by (simp add: handle_endtag_def)
  with st acc f s' show ?thesis by auto
qed

theorem starttag_without_id_keeps_state_witness:
  "lower ''b'' \<noteq> ''span'' \<and>
   feed init_parser [StartTag ''span'' [(''id'', Some ''x'')], Data ''one'']
     = Inr \<lparr>current_id = Some ''x'', parser_values = [(''x'', ''one'')]\<rparr> \<and>
   list_all neutral [Data ''two'', EndTag ''b'', StartTag ''span'' [(''id'', Some [])], Data ''three''] \<and>
   handle_starttag \<lparr>current_id = Some ''x'', parser_values = [(''x'', ''one'')]\<rparr> ''b'' [(''id'', Some ''y'')]
     = \<lparr>current_id = Some ''x'', parser_values = [(''x'', ''one'')]\<rparr> \<and>
   feed \<lparr>current_id = Some ''x'', parser_values = [(''x'', ''one'')]\<rparr>
     (StartTag ''b'' [(''id'', Some ''y'')] #
        [Data ''two'', EndTag ''b'', StartTag ''span'' [(''id'', Some [])], Data ''three''])
     = Inr \<lparr>current_id = Some ''x'', parser_values = [(''x'', ''one two three'')]\<rparr>"
proof -
  let ?s = "\<lparr>current_id = Some ''x'', parser_values = [(''x'', ''one'')]\<rparr>"
  let ?es = "[Data ''two'', EndTag ''b'', StartTag ''span'' [(''id'', Some [])], Data ''three'']"
  have h0: "lower ''b'' \<noteq> ''span''" by code_simp
  then have h1: "lower ''b'' \<noteq> ''span'' \<or> id_of [(''id'', Some ''y'')] = None
      \<or> id_of [(''id'', Some ''y'')] = Some []" by simp
  have h2: "feed init_parser [StartTag ''span'' [(''id'', Some ''x'')], Data ''one''] = Inr ?s"
    by code_simp
  have h3: "current_id ?s = Some ''x''" by simp
  have h4: "list_all neutral ?es" by code_simp
  from starttag_without_id_keeps_state[OF h1 h2 h3 h4]
  have a: "handle_starttag ?s ''b'' [(''id'', Some ''y'')] = ?s" by blast
  have c: "feed ?s (StartTag ''b'' [(''id'', Some ''y'')] # ?es)
     = Inr \<lparr>current_id = Some ''x'', parser_values = [(''x'', ''one two three'')]\<rparr>"
    by code_simp
  from h0 h2 h4 a c show ?thesis by simp
qed

section \<open>Claims about the record loader\<close>

text \<open>
  C4. When \<open>json.load\<close> returns a list, \<open>load_json_as_list\<close> returns that list unchanged;
  when it returns any other value (an object, a number, a string, a boolean or null), the
  result is the one-element list of that value.
\<close>

theorem load_json_as_list_wraps:
  "(json_load w p = Loaded (JArr items) \<longrightarrow> load_json_as_list w p = Inr items) \<and>
   (json_load w p = Loaded v \<and> (\<forall>xs. v \<noteq> JArr xs) \<longrightarrow> load_json_as_list w p = Inr [v])"
  by (cases v) (auto simp: load_json_as_list_def)

theorem load_json_as_list_wraps_witness:
  "json_load (demo_world []) ''/data/a.json'' = Loaded (JArr [JInt 1, JInt 2]) \<and>
   load_json_as_list (demo_world []) ''/data/a.json'' = Inr [JInt 1, JInt 2] \<and>
   json_load (demo_world []) ''/data/b.json'' = Loaded (JObj [(''x'', JInt 1)]) \<and>
   load_json_as_list (demo_world []) ''/data/b.json'' = Inr [JObj [(''x'', JInt 1)]]"
proof -
  have a: "json_load (demo_world []) ''/data/a.json'' = Loaded (JArr [JInt 1, JInt 2])"
    by (simp add: demo_world_def)
  have b: "json_load (demo_world []) ''/data/b.json'' = Loaded (JObj [(''x'', JInt 1)])"
    by (simp add: demo_world_def)
  from load_json_as_list_wraps[of "demo_world []" "''/data/a.json''" "[JInt 1, JInt 2]"] a
  have c: "load_json_as_list (demo_world []) ''/data/a.json'' = Inr [JInt 1, JInt 2]" by blast
  from load_json_as_list_wraps[of "demo_world []" "''/data/b.json''" _ "JObj [(''x'', JInt 1)]"] b
  have d: "load_json_as_list (demo_world []) ''/data/b.json'' = Inr [JObj [(''x'', JInt 1)]]"
    by simp
  from a b c d show ?thesis by simp
qed

section \<open>The record assembler\<close>

lemma option_case_id: "(case x of Some v \<Rightarrow> Some v | None \<Rightarrow> None) = x"
  by (cases x) simp_all

lemma format_templates:
  "map (\<lambda>(field, t). (field, format_idx t i)) FIELD_ID_MAP =
     [(''contract_id'', ''Repeater1_lblCustomerId_'' @ str_nat i),
      (''contract_description'', ''Repeater1_lblContactName_'' @ str_nat i),
      (''contractor'', ''Repeater1_lblCountry_'' @ str_nat i),
      (''implementing_office'', ''Repeater1_Label5_'' @ str_nat i),
      (''source_of_funds'', ''Repeater1_Label6_'' @ str_nat i),
      (''contract_cost_php'', ''Repeater1_Label2_'' @ str_nat i),
      (''contract_effectivity_date'', ''Repeater1_Label3_'' @ str_nat i),
      (''contract_expiry_date'', ''Repeater1_Label4_'' @ str_nat i),
      (''status'', ''Repeater1_Label7_'' @ str_nat i),
      (''percent_accomplishment'', ''Repeater1_Label1_'' @ str_nat i)]"
  by (simp add: FIELD_ID_MAP_def format_idx.simps startswith_def)

lemma build_record_eq:
  "build_record raw idx =
     map (\<lambda>(field, t). (field, map_of raw (format_idx t idx))) FIELD_ID_MAP"
  by (simp add: build_record_def FIELD_ID_MAP_def option_case_id)


lemma record_contract_id:
  "map_of (build_record raw idx) ''contract_id'' =
     Some (map_of raw (''Repeater1_lblCustomerId_'' @ str_nat idx))"
proof -
  have "build_record raw idx =
     map (\<lambda>(field, t). (field, map_of raw t)) (map (\<lambda>(field, t). (field, format_idx t idx)) FIELD_ID_MAP)"
    by (simp add: build_record_eq FIELD_ID_MAP_def)
  then show ?thesis unfolding format_templates by simp
qed

lemma assemble_rows_eq:
  "assemble_rows raw is = map (build_record raw) (filter (\<lambda>i. has_contract_id (build_record raw i)) is)"
  by (induction "is") (simp_all add: Let_def)

lemma has_contract_id_iff:
  "has_contract_id r \<longleftrightarrow> (\<exists>v. map_of r ''contract_id'' = Some (Some v) \<and> v \<noteq> [])"
  by (auto simp: has_contract_id_def split: option.splits)



lemma sorted_filter_keep:
  "sorted xs \<Longrightarrow> sorted (filter P xs)"
  by (induction xs) auto

lemma matched_indices_of_ok:
  "list_all (\<lambda>k. case index_match k of None \<Rightarrow> True
                 | Some ds \<Rightarrow> length ds \<le> int_max_str_digits) ks \<Longrightarrow>
   matched_indices_of ks = Inr (List.map_filter row_index ks)"
  by (induction ks)
     (auto simp: py_int_def row_index_def List.map_filter_simps split: option.splits)

lemma matched_indices_of_fail:
  "\<not> list_all (\<lambda>k. case index_match k of None \<Rightarrow> True
                 | Some ds \<Rightarrow> length ds \<le> int_max_str_digits) ks \<Longrightarrow>
   matched_indices_of ks = Inl int_limit_error"
proof (induction ks)
  case Nil
  then show ?case by simp
next
  case (Cons k ks)
  show ?case
  proof (cases "index_match k")
    case None
    with Cons show ?thesis by simp
  next
    case (Some ds)
    show ?thesis
    proof (cases "length ds \<le> int_max_str_digits")
      case True
      with Some Cons show ?thesis by (simp add: py_int_def)
    next
      case False
      with Some show ?thesis by (simp add: py_int_def)
    qed
  qed
qed

lemma set_map_filter: "set (List.map_filter f xs) = {y. \<exists>x \<in> set xs. f x = Some y}"
  by (induction xs) (auto simp: List.map_filter_simps split: option.splits)

lemma sort_set_order: "set_order si \<Longrightarrow> sort (si xs) = sort (remdups xs)"
proof -
  assume "set_order si"
  then have "distinct (si xs)" "set (si xs) = set xs" by (simp_all add: set_order_def)
  then show ?thesis
    by (intro sorted_distinct_set_unique) simp_all
qed

lemma set_order_remdups: "set_order remdups"
  by (simp add: set_order_def)

lemma indices_ok:
  assumes "set_order si" and "digits_ok raw"
  shows "\<exists>is. indices si raw = Inr is \<and> sorted is \<and> distinct is \<and>
           set is = {i. \<exists>k \<in> fst ` set raw. row_index k = Some i}"
proof -
  from assms(2) have "matched_indices raw = Inr (List.map_filter row_index (map fst raw))"
    unfolding digits_ok_def matched_indices_def by (rule matched_indices_of_ok)
  then have "indices si raw = Inr (sort (remdups (List.map_filter row_index (map fst raw))))"
    by (simp add: indices_def sort_set_order[OF assms(1)])
  then show ?thesis by (simp add: set_map_filter)
qed

lemma indices_fail:
  assumes "\<not> digits_ok raw"
  shows "indices si raw = Inl int_limit_error"
proof -
  from assms have "matched_indices raw = Inl int_limit_error"
    unfolding digits_ok_def matched_indices_def by (rule matched_indices_of_fail)
  then show ?thesis by (simp add: indices_def)
qed

lemma indices_order_free:
  assumes "set_order si1" and "set_order si2"
  shows "indices si1 raw = indices si2 raw"
  by (cases "matched_indices raw")
     (simp_all add: indices_def sort_set_order[OF assms(1)] sort_set_order[OF assms(2)])

lemma index_match_ones:
  "0 < n \<Longrightarrow>
   index_match (''Repeater1_lblCustomerId_'' @ replicate n (CHR ''1'')) = Some (replicate n (CHR ''1''))"
  by (simp add: index_match_def startswith_def Let_def isdigit_def takeWhile_replicate
      dropWhile_replicate)

lemma assemble_ok:
  assumes "set_order si" and "digits_ok raw"
  shows "\<exists>is. assemble_contracts si raw = Inr (map (build_record raw) is) \<and>
           sorted is \<and> distinct is \<and>
           set is = {i. (\<exists>k \<in> fst ` set raw. row_index k = Some i) \<and>
                        (\<exists>v. map_of (build_record raw i) ''contract_id'' = Some (Some v)
                             \<and> v \<noteq> [])}"
proof -
  from indices_ok[OF assms] obtain js where
    js: "indices si raw = Inr js" "sorted js" "distinct js"
        "set js = {i. \<exists>k \<in> fst ` set raw. row_index k = Some i}" by blast
  let ?is = "filter (\<lambda>i. has_contract_id (build_record raw i)) js"
  have a: "assemble_contracts si raw = Inr (map (build_record raw) ?is)"
    by (simp add: assemble_contracts_def js(1) assemble_rows_eq)
  have b: "sorted ?is" using js(2) by (rule sorted_filter_keep)
  have c: "distinct ?is" using js(3) by simp
  have d: "set ?is = {i. (\<exists>k \<in> fst ` set raw. row_index k = Some i) \<and>
                        (\<exists>v. map_of (build_record raw i) ''contract_id'' = Some (Some v)
                             \<and> v \<noteq> [])}"
    using js(4) by (auto simp: has_contract_id_iff)
  from a b c d show ?thesis by blast
qed

lemma assemble_fail: "\<not> digits_ok raw \<Longrightarrow> assemble_contracts si raw = Inl int_limit_error"
  by (simp add: assemble_contracts_def indices_fail)


section \<open>Claims about the record assembler\<close>




text \<open>
  C5, as the code has it. When no identifier matches the index pattern with more than 4300
  digits, the assembler emits the records of a sorted, duplicate-free list of indices: exactly
  the indices matched on some identifier whose \<open>contract_id\<close> value is present and not
  empty. When some identifier matches with more than 4300 digits, \<open>int\<close> raises
  \<open>ValueError\<close> and nothing is emitted. The \<open>contract_id\<close> of the record of
  index \<open>i\<close> is the text stored for \<open>Repeater1_lblCustomerId_i\<close>. A span
  \<open>Repeater1_lblCustomerId_0\<close> with text \<open>C-1\<close> followed by an empty span
  \<open>Repeater1_lblCustomerId_1\<close> gives exactly one record, with \<open>contract_id\<close>
  \<open>C-1\<close>.
\<close>

theorem assembler_keeps_rows_with_contract_id:
  assumes "set_order si"
  shows "(if digits_ok raw
          then \<exists>is. assemble_contracts si raw = Inr (map (build_record raw) is) \<and>
                 sorted is \<and> distinct is \<and>
                 set is = {i. (\<exists>k \<in> fst ` set raw. row_index k = Some i) \<and>
                              (\<exists>v. map_of (build_record raw i) ''contract_id'' = Some (Some v)
                                   \<and> v \<noteq> [])}
          else assemble_contracts si raw = Inl int_limit_error) \<and>
         (\<forall>i. map_of (build_record raw i) ''contract_id''
                = Some (map_of raw (''Repeater1_lblCustomerId_'' @ str_nat i))) \<and>
         parse_contracts si
           (\<lambda>h. [StartTag ''span'' [(''id'', Some ''Repeater1_lblCustomerId_0'')],
                  Data ''C-1'', EndTag ''span'',
                  StartTag ''span'' [(''id'', Some ''Repeater1_lblCustomerId_1'')],
                  EndTag ''span''])
           html
         = Inr [[(''contract_id'', Some ''C-1''), (''contract_description'', None),
                 (''contractor'', None), (''implementing_office'', None),
                 (''source_of_funds'', None), (''contract_cost_php'', None),
                 (''contract_effectivity_date'', None), (''contract_expiry_date'', None),
                 (''status'', None), (''percent_accomplishment'', None)]]"
proof -
  have a: "if digits_ok raw
          then \<exists>is. assemble_contracts si raw = Inr (map (build_record raw) is) \<and>
                 sorted is \<and> distinct is \<and>
                 set is = {i. (\<exists>k \<in> fst ` set raw. row_index k = Some i) \<and>
                              (\<exists>v. map_of (build_record raw i) ''contract_id'' = Some (Some v)
                                   \<and> v \<noteq> [])}
          else assemble_contracts si raw = Inl int_limit_error"
    using assemble_ok[OF assms, of raw] assemble_fail[of raw si] by (cases "digits_ok raw") simp_all
  let ?raw = "[(''Repeater1_lblCustomerId_0'', ''C-1''), (''Repeater1_lblCustomerId_1'', [])]"
  have f: "feed init_parser
             [StartTag ''span'' [(''id'', Some ''Repeater1_lblCustomerId_0'')],
              Data ''C-1'', EndTag ''span'',
              StartTag ''span'' [(''id'', Some ''Repeater1_lblCustomerId_1'')],
              EndTag ''span'']
           = Inr \<lparr>current_id = None, parser_values = ?raw\<rparr>"
    by code_simp
  have m: "matched_indices ?raw = Inr [0, 1]" by code_simp
  have "sort (si [0, 1]) = sort (remdups [0, 1::nat])" by (rule sort_set_order[OF assms])
  also have "\<dots> = [0, 1]" by code_simp
  finally have i: "indices si ?raw = Inr [0, 1]" by (simp add: indices_def m)
  have r: "assemble_rows ?raw [0, 1]
         = [[(''contract_id'', Some ''C-1''), (''contract_description'', None),
                 (''contractor'', None), (''implementing_office'', None),
                 (''source_of_funds'', None), (''contract_cost_php'', None),
                 (''contract_effectivity_date'', None), (''contract_expiry_date'', None),
                 (''status'', None), (''percent_accomplishment'', None)]]"
    by code_simp
  have e: "parse_contracts si
           (\<lambda>h. [StartTag ''span'' [(''id'', Some ''Repeater1_lblCustomerId_0'')],
                  Data ''C-1'', EndTag ''span'',
                  StartTag ''span'' [(''id'', Some ''Repeater1_lblCustomerId_1'')],
                  EndTag ''span''])
           html
         = Inr [[(''contract_id'', Some ''C-1''), (''contract_description'', None),
                 (''contractor'', None), (''implementing_office'', None),
                 (''source_of_funds'', None), (''contract_cost_php'', None),
                 (''contract_effectivity_date'', None), (''contract_expiry_date'', None),
                 (''status'', None), (''percent_accomplishment'', None)]]"
  proof -
    have "assemble_contracts si ?raw
         = Inr [[(''contract_id'', Some ''C-1''), (''contract_description'', None),
                 (''contractor'', None), (''implementing_office'', None),
                 (''source_of_funds'', None), (''contract_cost_php'', None),
                 (''contract_effectivity_date'', None), (''contract_expiry_date'', None),
                 (''status'', None), (''percent_accomplishment'', None)]]"
      unfolding assemble_contracts_def i using r by simp
    then show ?thesis unfolding parse_contracts_def f by simp
  qed
  have g: "\<forall>i. map_of (build_record raw i) ''contract_id''
                = Some (map_of raw (''Repeater1_lblCustomerId_'' @ str_nat i))"
    by (simp add: record_contract_id)
  from a e g show ?thesis by blast
qed

theorem assembler_keeps_rows_with_contract_id_witness:
  "set_order remdups \<and>
   digits_ok
     [(''Repeater1_lblCustomerId_2'', ''C-2''), (''Repeater1_lblCountry_2'', ''Acme''),
      (''Repeater1_lblCustomerId_0'', ''C-0''), (''Repeater1_Label5_1'', ''Office'')] \<and>
   (\<exists>is. assemble_contracts remdups
            [(''Repeater1_lblCustomerId_2'', ''C-2''), (''Repeater1_lblCountry_2'', ''Acme''),
             (''Repeater1_lblCustomerId_0'', ''C-0''), (''Repeater1_Label5_1'', ''Office'')]
          = Inr (map (build_record
            [(''Repeater1_lblCustomerId_2'', ''C-2''), (''Repeater1_lblCountry_2'', ''Acme''),
             (''Repeater1_lblCustomerId_0'', ''C-0''), (''Repeater1_Label5_1'', ''Office'')]) is)
          \<and> sorted is \<and> distinct is) \<and>
   map_sum id (map (\<lambda>r. map_of r ''contract_id''))
     (assemble_contracts remdups
        [(''Repeater1_lblCustomerId_2'', ''C-2''), (''Repeater1_lblCountry_2'', ''Acme''),
         (''Repeater1_lblCustomerId_0'', ''C-0''), (''Repeater1_Label5_1'', ''Office'')])
     = Inr [Some (Some ''C-0''), Some (Some ''C-2'')]"
proof -
  let ?raw = "[(''Repeater1_lblCustomerId_2'', ''C-2''), (''Repeater1_lblCountry_2'', ''Acme''),
         (''Repeater1_lblCustomerId_0'', ''C-0''), (''Repeater1_Label5_1'', ''Office'')]"
  have so: "set_order remdups" by (rule set_order_remdups)
  have d: "digits_ok ?raw" by code_simp
  note t = assembler_keeps_rows_with_contract_id[OF so, of ?raw]
  from t have "if digits_ok ?raw
          then \<exists>is. assemble_contracts remdups ?raw = Inr (map (build_record ?raw) is) \<and>
                 sorted is \<and> distinct is \<and>
                 set is = {i. (\<exists>k \<in> fst ` set ?raw. row_index k = Some i) \<and>
                              (\<exists>v. map_of (build_record ?raw i) ''contract_id'' = Some (Some v)
                                   \<and> v \<noteq> [])}
          else assemble_contracts remdups ?raw = Inl int_limit_error"
    by (rule conjunct1)
  with d have "\<exists>is. assemble_contracts remdups ?raw = Inr (map (build_record ?raw) is) \<and>
                 sorted is \<and> distinct is \<and>
                 set is = {i. (\<exists>k \<in> fst ` set ?raw. row_index k = Some i) \<and>
                              (\<exists>v. map_of (build_record ?raw i) ''contract_id'' = Some (Some v)
                                   \<and> v \<noteq> [])}"
    by (simp only: if_True)
  then have a: "\<exists>is. assemble_contracts remdups ?raw = Inr (map (build_record ?raw) is)
          \<and> sorted is \<and> distinct is" by blast
  have b: "map_sum id (map (\<lambda>r. map_of r ''contract_id'')) (assemble_contracts remdups ?raw)
     = Inr [Some (Some ''C-0''), Some (Some ''C-2'')]" by code_simp
  from so d a b show ?thesis by blast
qed

text \<open>
  An identifier that matches the index pattern with 4301 digits: the assembler raises
  \<open>ValueError\<close> and emits no record, although the mapping has a non-empty
  \<open>contract_id\<close> text for that index.
\<close>

theorem overlong_index_counterexample:
  "index_match (''Repeater1_lblCustomerId_'' @ replicate 4301 (CHR ''1''))
     = Some (replicate 4301 (CHR ''1'')) \<and>
   assemble_contracts remdups
     [(''Repeater1_lblCustomerId_'' @ replicate 4301 (CHR ''1''), ''C-1'')]
     = Inl (ValueError ''Exceeds the limit (4300 digits) for integer string conversion'') \<and>
   parse_contracts remdups
     (\<lambda>h. [StartTag ''span''
              [(''id'', Some (''Repeater1_lblCustomerId_'' @ replicate 4301 (CHR ''1'')))],
            Data ''C-1'', EndTag ''span''])
     []
     = Inl (ValueError ''Exceeds the limit (4300 digits) for integer string conversion'')"
proof -
  let ?k = "''Repeater1_lblCustomerId_'' @ replicate 4301 (CHR ''1'')"
  have m: "index_match ?k = Some (replicate 4301 (CHR ''1''))"
    by (rule index_match_ones) simp
  have "\<not> (case index_match ?k of None \<Rightarrow> True | Some ds \<Rightarrow> length ds \<le> int_max_str_digits)"
    unfolding m by (simp add: int_max_str_digits_def)
  then have nd: "\<not> digits_ok [(?k, ''C-1'')]"
    unfolding digits_ok_def by simp
  have a: "assemble_contracts remdups [(?k, ''C-1'')] = Inl int_limit_error"
    using nd by (rule assemble_fail)
  have f: "feed init_parser [StartTag ''span'' [(''id'', Some k)], Data ''C-1'', EndTag ''span'']
      = Inr \<lparr>current_id = None, parser_values = [(k, ''C-1'')]\<rparr>" if kne: "k \<noteq> []" for k
  proof -
    have l: "lower ''span'' = ''span''" by code_simp
    have s: "strip ''C-1'' = ''C-1''" by code_simp
    have h1: "handle_starttag init_parser ''span'' [(''id'', Some k)]
        = \<lparr>current_id = Some k, parser_values = [(k, [])]\<rparr>"
      using kne by (simp add: handle_starttag_def l dict_of_def setdefault_def init_parser_def)
    have h2: "handle_data \<lparr>current_id = Some k, parser_values = [(k, [])]\<rparr> ''C-1''
        = Inr \<lparr>current_id = Some k, parser_values = [(k, ''C-1'')]\<rparr>"
      using kne by (simp add: handle_data_def Let_def s)
    have h3: "handle_endtag \<lparr>current_id = Some k, parser_values = [(k, ''C-1'')]\<rparr> ''span''
        = \<lparr>current_id = None, parser_values = [(k, ''C-1'')]\<rparr>"
      by (simp add: handle_endtag_def l)
    show ?thesis by (simp add: handle_event_def h1 h2 h3)
  qed
  have "?k \<noteq> []" by simp
  then have f': "feed init_parser [StartTag ''span'' [(''id'', Some ?k)], Data ''C-1'', EndTag ''span'']
      = Inr \<lparr>current_id = None, parser_values = [(?k, ''C-1'')]\<rparr>" by (rule f)
  have b: "parse_contracts remdups
     (\<lambda>h. [StartTag ''span'' [(''id'', Some ?k)], Data ''C-1'', EndTag ''span'']) []
     = Inl int_limit_error"
    unfolding parse_contracts_def f' using a by simp
  from m a b show ?thesis unfolding int_limit_error_def by (intro conjI)
qed

section \<open>The command line of the extractor\<close>





lemma parse_order_free:
  assumes "set_order si1" and "set_order si2"
  shows "parse_contracts si1 tok html = parse_contracts si2 tok html"
proof -
  have "\<And>raw. assemble_contracts si1 raw = assemble_contracts si2 raw"
    by (simp add: assemble_contracts_def indices_order_free[OF assms])
  then show ?thesis
    by (cases "feed init_parser (tok html)") (simp_all add: parse_contracts_def)
qed


lemma main_extract_bytes:
  assumes "read_text (html_path args) = Some html"
    and "main_extract si tok dumps to_path read_text args = Inr act"
  shows "\<exists>cs. parse_contracts si tok html = Inr cs \<and>
               emitted_bytes act = dumps cs (indent args) @ [CHR 0x0A]"
proof (cases "parse_contracts si tok html")
  case (Inl err)
  with assms show ?thesis by (simp add: main_extract_def)
next
  case (Inr cs)
  with assms have "emitted_bytes act = dumps cs (indent args) @ [CHR 0x0A]"
    by (auto simp: main_extract_def Let_def with_name_def emitted_bytes_def
        split: option.splits if_splits)
  with Inr show ?thesis by simp
qed

section \<open>Claims about the command line of the extractor\<close>




text \<open>
  C8. Two runs that read the same HTML text with the same indent setting and both
  succeed emit the same bytes, whatever order each run's set of row indices iterates in,
  wherever the HTML file lies and wherever the output goes.
\<close>

theorem extractor_is_deterministic:
  assumes "set_order si1" and "set_order si2"
    and "read1 (html_path a1) = Some html" and "read2 (html_path a2) = Some html"
    and "indent a1 = indent a2"
    and "main_extract si1 tok dumps tp1 read1 a1 = Inr act1"
    and "main_extract si2 tok dumps tp2 read2 a2 = Inr act2"
  shows "emitted_bytes act1 = emitted_bytes act2"
proof -
  from main_extract_bytes[OF assms(3,6)] obtain cs1 where
    c1: "parse_contracts si1 tok html = Inr cs1"
    and b1: "emitted_bytes act1 = dumps cs1 (indent a1) @ [CHR 0x0A]" by blast
  from main_extract_bytes[OF assms(4,7)] obtain cs2 where
    c2: "parse_contracts si2 tok html = Inr cs2"
    and b2: "emitted_bytes act2 = dumps cs2 (indent a2) @ [CHR 0x0A]" by blast
  from parse_order_free[OF assms(1,2), of tok html] c1 c2 have "cs1 = cs2" by simp
  with b1 b2 assms(5) show ?thesis by simp
qed

theorem extractor_is_deterministic_witness:
  "set_order remdups \<and> set_order (\<lambda>xs. rev (remdups xs)) \<and>
   main_extract remdups
     (\<lambda>h. [StartTag ''span'' [(''id'', Some ''Repeater1_lblCustomerId_1'')], Data ''C-1'',
            EndTag ''span'',
            StartTag ''span'' [(''id'', Some ''Repeater1_lblCustomerId_0'')], Data ''C-0'',
            EndTag ''span''])
     (\<lambda>cs n. concat (map (\<lambda>r. case map_of r ''contract_id'' of Some (Some v) \<Rightarrow> v | _ \<Rightarrow> []) cs))
     (\<lambda>p. \<lparr>path_parent = [], path_name = p\<rparr>)
     (\<lambda>p. Some ''<html>'')
     \<lparr>html_path = ''x.html'', output_arg = None, indent = 2\<rparr>
   = Inr (Print ''C-0C-1'') \<and>
   main_extract (\<lambda>xs. rev (remdups xs))
     (\<lambda>h. [StartTag ''span'' [(''id'', Some ''Repeater1_lblCustomerId_1'')], Data ''C-1'',
            EndTag ''span'',
            StartTag ''span'' [(''id'', Some ''Repeater1_lblCustomerId_0'')], Data ''C-0'',
            EndTag ''span''])
     (\<lambda>cs n. concat (map (\<lambda>r. case map_of r ''contract_id'' of Some (Some v) \<Rightarrow> v | _ \<Rightarrow> []) cs))
     (\<lambda>p. \<lparr>path_parent = [], path_name = p\<rparr>)
     (\<lambda>p. Some ''<html>'')
     \<lparr>html_path = ''y.html'', output_arg = Some ''o.json'', indent = 2\<rparr>
   = Inr (WriteText \<lparr>path_parent = [], path_name = ''o_2.json''\<rparr> (''C-0C-1'' @ [CHR 0x0A])) \<and>
   emitted_bytes (Print ''C-0C-1'')
     = emitted_bytes (WriteText \<lparr>path_parent = [], path_name = ''o_2.json''\<rparr> (''C-0C-1'' @ [CHR 0x0A]))"
proof -
  let ?tok = "\<lambda>h::string. [StartTag ''span'' [(''id'', Some ''Repeater1_lblCustomerId_1'')], Data ''C-1'',
            EndTag ''span'',
            StartTag ''span'' [(''id'', Some ''Repeater1_lblCustomerId_0'')], Data ''C-0'',
            EndTag ''span'']"
  let ?dumps = "\<lambda>(cs::contract list) (n::int).
      concat (map (\<lambda>r. case map_of r ''contract_id'' of Some (Some v) \<Rightarrow> v | _ \<Rightarrow> []) cs)"
  let ?tp = "\<lambda>p::string. \<lparr>path_parent = [], path_name = p\<rparr>"
  let ?read = "\<lambda>p::string. Some ''<html>''"
  let ?a1 = "\<lparr>html_path = ''x.html'', output_arg = None, indent = 2\<rparr>"
  let ?a2 = "\<lparr>html_path = ''y.html'', output_arg = Some ''o.json'', indent = 2\<rparr>"
  have o1: "set_order remdups" by (rule set_order_remdups)
  have o2: "set_order (\<lambda>xs. rev (remdups xs))" by (simp add: set_order_def)
  have r1: "?read (html_path ?a1) = Some ''<html>''" by simp
  have r2: "?read (html_path ?a2) = Some ''<html>''" by simp
  have i: "indent ?a1 = indent ?a2" by simp
  have m1: "main_extract remdups ?tok ?dumps ?tp ?read ?a1 = Inr (Print ''C-0C-1'')"
    by code_simp
  have m2: "main_extract (\<lambda>xs. rev (remdups xs)) ?tok ?dumps ?tp ?read ?a2
     = Inr (WriteText \<lparr>path_parent = [], path_name = ''o_2.json''\<rparr> (''C-0C-1'' @ [CHR 0x0A]))"
    by code_simp
  from extractor_is_deterministic[where ?read1.0="?read" and ?read2.0="?read", OF o1 o2 r1 r2 i m1 m2]
  have e: "emitted_bytes (Print ''C-0C-1'')
     = emitted_bytes (WriteText \<lparr>path_parent = [], path_name = ''o_2.json''\<rparr> (''C-0C-1'' @ [CHR 0x0A]))" .
  from o1 o2 m1 m2 e show ?thesis by blast
qed

section \<open>The combiner\<close>

lemma load_all_arrays:
  assumes "\<And>f. f \<in> set fs \<Longrightarrow> json_load w f = Loaded (JArr (arr f))"
  shows "load_all w fs acc = Inr (acc @ concat (map arr fs))"
  using assms
proof (induction fs arbitrary: acc)
  case Nil
  show ?case by simp
next
  case (Cons f fs)
  from Cons.prems have "load_json_as_list w f = Inr (arr f)"
    by (simp add: load_json_as_list_def)
  moreover from Cons have "load_all w fs (acc @ arr f) = Inr ((acc @ arr f) @ concat (map arr fs))"
    by simp
  ultimately show ?case by simp
qed


lemma load_all_loaded:
  "load_all w fs acc = Inr combined \<Longrightarrow> list_all (\<lambda>f. \<not> load_fails w f) fs"
proof (induction fs arbitrary: acc)
  case Nil
  show ?case by simp
next
  case (Cons f fs)
  show ?case
  proof (cases "load_json_as_list w f")
    case (Inl err)
    with Cons.prems show ?thesis by simp
  next
    case (Inr items)
    then have "\<not> load_fails w f"
      by (cases "json_load w f") (simp_all add: load_fails_def load_json_as_list_def)
    moreover from Inr Cons.prems have "load_all w fs (acc @ items) = Inr combined" by simp
    then have "list_all (\<lambda>f. \<not> load_fails w f) fs" by (rule Cons.IH)
    ultimately show ?thesis by simp
  qed
qed

lemma append_le_iff: "(pre @ x \<le> pre @ y) = (x \<le> (y::string))"
  by (induction pre) simp_all

lemma insort_map_append:
  "insort (pre @ x) (map ((@) pre) ys) = map ((@) pre) (insort x (ys::string list))"
  by (induction ys) (simp_all add: append_le_iff)

lemma sort_map_append:
  "sort (map ((@) pre) xs) = map ((@) pre) (sort (xs::string list))"
  by (induction xs) (simp_all add: sort_key_simps insort_map_append)

lemma joinpath_append:
  "joinpath d = (@) (if endswith d ''/'' then d else d @ ''/'')"
  by (rule ext) (simp add: joinpath_def)

lemma collect_json_files_eq:
  "collect_json_files w d out =
     map (joinpath d)
       (sort (filter (\<lambda>n. endswith n ''.json'' \<and> resolve w (joinpath d n) \<noteq> resolve w out)
          (listdir w d)))"
proof -
  have "collect_json_files w d out =
      filter (\<lambda>p. resolve w p \<noteq> resolve w out)
        (map (joinpath d) (sort (filter (\<lambda>n. endswith n ''.json'') (listdir w d))))"
    unfolding collect_json_files_def glob_json_def Let_def joinpath_append sort_map_append ..
  also have "\<dots> = map (joinpath d)
       (filter (\<lambda>n. resolve w (joinpath d n) \<noteq> resolve w out)
          (sort (filter (\<lambda>n. endswith n ''.json'') (listdir w d))))"
    by (simp add: filter_map o_def)
  also have "\<dots> = map (joinpath d)
       (sort (filter (\<lambda>n. endswith n ''.json'' \<and> resolve w (joinpath d n) \<noteq> resolve w out)
          (listdir w d)))"
    by (simp add: filter_sort conj_commute)
  finally show ?thesis .
qed

lemma write_ok:
  assumes "writable w out (JArr es)"
  shows "write_combined_json w out es =
           (Inr (), w\<lparr>made_dirs := made_dirs w @ [out],
                      written := AList.update out (Complete (JArr es)) (written w)\<rparr>)"
  using assms by (simp add: writable_def write_combined_json_def Let_def)

lemma write_fail:
  assumes "\<not> writable w out (JArr es)"
  shows "\<exists>err w'. write_combined_json w out es = (Inl err, w') \<and> stdout w' = stdout w \<and>
           (map_of (written w') out = map_of (written w) out \<or>
            map_of (written w') out = Some Truncated)"
  using assms
  by (auto simp: writable_def write_combined_json_def Let_def update_conv'
      split: option.splits)

lemma main_combine_unfold:
  assumes "d = resolve w (directory_arg args)"
    and "out = (if is_absolute (output_file args) then output_file args
                else path_div d (output_file args))"
    and "is_dir w d"
  shows "main_combine args w =
     (case load_all w (collect_json_files w d out) [] of
        Inl err \<Rightarrow> (Inl err, w)
      | Inr combined \<Rightarrow>
          (case write_combined_json w out combined of
             (Inl err, w') \<Rightarrow> (Inl err, w')
           | (Inr u, w') \<Rightarrow>
               (Inr (),
                w'\<lparr>stdout := stdout w' @
                     [summary (length (collect_json_files w d out)) out (length combined)]\<rparr>)))"
proof -
  have e1: "resolve w (directory_arg args) = d" using assms(1) by simp
  have e2: "(if is_absolute (output_file args) then output_file args
             else path_div d (output_file args)) = out" using assms(2) by simp
  show ?thesis
    unfolding main_combine_def Let_def e1 e2 using assms(3) by simp
qed


section \<open>Claims about the combiner\<close>




text \<open>
  C3, as the code has it. In an existing directory whose candidate files (the names ending
  in \<open>.json\<close> that are not the output file) all hold arrays, the candidates are read in
  ascending order of their names, and the value to write is the concatenation of their
  arrays in that order, whose length is the sum of the lengths of the arrays. When the
  output file can be written (its parent directories can be made, it is not a directory,
  it can be opened, and \<open>json.dump\<close> can encode the value), the run writes that value to the
  output path and the summary reports the number of files and of entries. When it cannot,
  the run ends with the exception, nothing is reported, and the output file is left as it
  was or holds only a part of the text.
\<close>

theorem combined_is_concatenation_in_name_order:
  assumes "d = resolve w (directory_arg args)"
    and "out = (if is_absolute (output_file args) then output_file args
                else path_div d (output_file args))"
    and "is_dir w d"
    and "names = sort (filter (\<lambda>n. endswith n ''.json'' \<and>
                                  resolve w (joinpath d n) \<noteq> resolve w out) (listdir w d))"
    and "\<And>n. n \<in> set names \<Longrightarrow> json_load w (joinpath d n) = Loaded (JArr (arr n))"
  shows "sorted names \<and>
         collect_json_files w d out = map (joinpath d) names \<and>
         load_all w (collect_json_files w d out) [] = Inr (concat (map arr names)) \<and>
         length (concat (map arr names)) = sum_list (map (\<lambda>n. length (arr n)) names) \<and>
         (if writable w out (JArr (concat (map arr names)))
          then \<exists>w'. main_combine args w = (Inr (), w') \<and>
                 map_of (written w') out = Some (Complete (JArr (concat (map arr names)))) \<and>
                 stdout w' = stdout w @
                   [summary (length names) out (sum_list (map (\<lambda>n. length (arr n)) names))]
          else \<exists>err w'. main_combine args w = (Inl err, w') \<and> stdout w' = stdout w \<and>
                 (map_of (written w') out = map_of (written w) out \<or>
                  map_of (written w') out = Some Truncated))"
proof -
  have s: "sorted names" unfolding assms(4) by simp
  have c: "collect_json_files w d out = map (joinpath d) names"
    unfolding assms(4) by (rule collect_json_files_eq)
  define arr' where "arr' = (\<lambda>p. case json_load w p of Loaded (JArr xs) \<Rightarrow> xs | _ \<Rightarrow> [])"
  have a: "\<And>f. f \<in> set (map (joinpath d) names) \<Longrightarrow> json_load w f = Loaded (JArr (arr' f))"
    using assms(5) by (auto simp: arr'_def)
  have "map arr' (map (joinpath d) names) = map arr names"
    using assms(5) by (simp add: arr'_def)
  then have m: "concat (map arr' (map (joinpath d) names)) = concat (map arr names)"
    by (rule arg_cong)
  have "load_all w (map (joinpath d) names) []
      = Inr ([] @ concat (map arr' (map (joinpath d) names)))"
    by (rule load_all_arrays[OF a])
  then have l2: "load_all w (map (joinpath d) names) [] = Inr (concat (map arr names))"
    unfolding m by simp
  then have l: "load_all w (collect_json_files w d out) [] = Inr (concat (map arr names))"
    unfolding c .
  have len: "length (concat (map arr names)) = sum_list (map (\<lambda>n. length (arr n)) names)"
    by (simp add: length_concat o_def)
  have u: "main_combine args w =
     (case write_combined_json w out (concat (map arr names)) of
             (Inl err, w') \<Rightarrow> (Inl err, w')
           | (Inr u, w') \<Rightarrow>
               (Inr (),
                w'\<lparr>stdout := stdout w' @
                     [summary (length names) out
                        (sum_list (map (\<lambda>n. length (arr n)) names))]\<rparr>))"
    unfolding main_combine_unfold[OF assms(1,2,3)] c l2 sum.case length_map len ..
  have f: "if writable w out (JArr (concat (map arr names)))
          then \<exists>w'. main_combine args w = (Inr (), w') \<and>
                 map_of (written w') out = Some (Complete (JArr (concat (map arr names)))) \<and>
                 stdout w' = stdout w @
                   [summary (length names) out (sum_list (map (\<lambda>n. length (arr n)) names))]
          else \<exists>err w'. main_combine args w = (Inl err, w') \<and> stdout w' = stdout w \<and>
                 (map_of (written w') out = map_of (written w) out \<or>
                  map_of (written w') out = Some Truncated)"
  proof (cases "writable w out (JArr (concat (map arr names)))")
    case True
    show ?thesis unfolding u write_ok[OF True] using True by (simp add: update_conv')
  next
    case False
    from write_fail[OF False] obtain err w' where
      "write_combined_json w out (concat (map arr names)) = (Inl err, w')"
      "stdout w' = stdout w"
      "map_of (written w') out = map_of (written w) out \<or> map_of (written w') out = Some Truncated"
      by blast
    then show ?thesis unfolding u using False by simp
  qed
  from s c l len f show ?thesis by (intro conjI)
qed

theorem combined_is_concatenation_in_name_order_witness:
  "is_dir (demo_world [''c.json'', ''all.json'', ''a.json'', ''notes.txt'']) ''/data'' \<and>
   collect_json_files (demo_world [''c.json'', ''all.json'', ''a.json'', ''notes.txt''])
       ''/data'' ''/data/all.json''
     = [''/data/a.json'', ''/data/c.json''] \<and>
   writable (demo_world [''c.json'', ''all.json'', ''a.json'', ''notes.txt''])
     ''/data/all.json'' (JArr [JInt 1, JInt 2, JInt 3]) \<and>
   (\<exists>w'. main_combine \<lparr>directory_arg = ''/data'', output_file = ''all.json''\<rparr>
            (demo_world [''c.json'', ''all.json'', ''a.json'', ''notes.txt'']) = (Inr (), w') \<and>
         map_of (written w') ''/data/all.json'' = Some (Complete (JArr [JInt 1, JInt 2, JInt 3])) \<and>
         stdout w' = [''Combined 2 file(s) into /data/all.json with 3 item(s).''])"
proof -
  let ?w = "demo_world [''c.json'', ''all.json'', ''a.json'', ''notes.txt'']"
  let ?args = "\<lparr>directory_arg = ''/data'', output_file = ''all.json''\<rparr>"
  let ?arr = "\<lambda>n. if n = ''a.json'' then [JInt 1, JInt 2] else [JInt 3]"
  have d: "''/data'' = resolve ?w (directory_arg ?args)" by (simp add: demo_world_def)
  have o: "''/data/all.json'' = (if is_absolute (output_file ?args) then output_file ?args
                else path_div ''/data'' (output_file ?args))" by code_simp
  have i: "is_dir ?w ''/data''" by (simp add: demo_world_def)
  have n: "[''a.json'', ''c.json''] =
      sort (filter (\<lambda>n. endswith n ''.json'' \<and>
                       resolve ?w (joinpath ''/data'' n) \<noteq> resolve ?w ''/data/all.json'')
             (listdir ?w ''/data''))" by code_simp
  have ja: "joinpath ''/data'' ''a.json'' = ''/data/a.json''" by code_simp
  have jc: "joinpath ''/data'' ''c.json'' = ''/data/c.json''" by code_simp
  have a: "\<And>n. n \<in> set [''a.json'', ''c.json''] \<Longrightarrow>
      json_load ?w (joinpath ''/data'' n) = Loaded (JArr (?arr n))"
    using ja jc by (auto simp: demo_world_def)
  have st: "stdout ?w = []" by (simp add: demo_world_def)
  have sm: "summary (length [''a.json'', ''c.json'']) ''/data/all.json''
              (sum_list (map (\<lambda>n. length (?arr n)) [''a.json'', ''c.json'']))
            = ''Combined 2 file(s) into /data/all.json with 3 item(s).''" by code_simp
  have cc: "concat (map ?arr [''a.json'', ''c.json'']) = [JInt 1, JInt 2, JInt 3]" by simp
  have wr: "writable ?w ''/data/all.json'' (JArr [JInt 1, JInt 2, JInt 3])"
    by (simp add: writable_def demo_world_def)
  note t = combined_is_concatenation_in_name_order[OF d o i n a]
  from t have c: "collect_json_files ?w ''/data'' ''/data/all.json''
             = map (joinpath ''/data'') [''a.json'', ''c.json'']"
    by blast
  from t have "if writable ?w ''/data/all.json'' (JArr (concat (map ?arr [''a.json'', ''c.json''])))
          then \<exists>w'. main_combine ?args ?w = (Inr (), w') \<and>
                 map_of (written w') ''/data/all.json''
                   = Some (Complete (JArr (concat (map ?arr [''a.json'', ''c.json''])))) \<and>
                 stdout w' = stdout ?w @
                   [summary (length [''a.json'', ''c.json'']) ''/data/all.json''
                      (sum_list (map (\<lambda>n. length (?arr n)) [''a.json'', ''c.json'']))]
          else \<exists>err w'. main_combine ?args ?w = (Inl err, w') \<and> stdout w' = stdout ?w \<and>
                 (map_of (written w') ''/data/all.json'' = map_of (written ?w) ''/data/all.json'' \<or>
                  map_of (written w') ''/data/all.json'' = Some Truncated)"
    by blast
  then have m': "\<exists>w'. main_combine ?args ?w = (Inr (), w') \<and>
         map_of (written w') ''/data/all.json'' = Some (Complete (JArr [JInt 1, JInt 2, JInt 3])) \<and>
         stdout w' = [''Combined 2 file(s) into /data/all.json with 3 item(s).'']"
    unfolding sm st cc using wr by simp
  from c ja jc have c': "collect_json_files ?w ''/data'' ''/data/all.json''
     = [''/data/a.json'', ''/data/c.json'']" by simp
  from i c' wr m' show ?thesis by (intro conjI)
qed

text \<open>
  A directory whose only candidate file holds a valid array with a string that is a lone
  surrogate: \<open>json.dump\<close> raises \<open>UnicodeEncodeError\<close> after the output file was opened
  for writing, so the run fails and the output file, which held a complete value before,
  holds a part of the text and not the concatenation.
\<close>

theorem unencodable_array_counterexample:
  "collect_json_files (demo_world [''s.json'', ''all.json'']) ''/data'' ''/data/all.json''
     = [''/data/s.json''] \<and>
   json_load (demo_world [''s.json'', ''all.json'']) ''/data/s.json''
     = Loaded (JArr [JInt 1, JInt 2, JStr ''lone surrogate U+D800'', JInt 3]) \<and>
   map_of (written (demo_world [''s.json'', ''all.json''])) ''/data/all.json''
     = Some (Complete (JArr [JStr ''old''])) \<and>
   fst (main_combine \<lparr>directory_arg = ''/data'', output_file = ''all.json''\<rparr>
          (demo_world [''s.json'', ''all.json'']))
     = Inl (UnicodeEncodeError ''utf-8 codec cannot encode character U+D800 in position 5'') \<and>
   map_of (written (snd (main_combine \<lparr>directory_arg = ''/data'', output_file = ''all.json''\<rparr>
                           (demo_world [''s.json'', ''all.json''])))) ''/data/all.json''
     = Some Truncated \<and>
   stdout (snd (main_combine \<lparr>directory_arg = ''/data'', output_file = ''all.json''\<rparr>
                  (demo_world [''s.json'', ''all.json'']))) = []"
  by code_simp

text \<open>
  C10, as the code has it. In an existing directory where every name ending in \<open>.json\<close>
  is the output file itself, when the output file can be written (its parent directories
  can be made, it is not a directory and it can be opened), the run succeeds, writes the
  empty array to the output path and prints that 0 files were combined into 0 items.
\<close>

theorem empty_directory_writes_empty_array:
  assumes "d = resolve w (directory_arg args)"
    and "out = (if is_absolute (output_file args) then output_file args
                else path_div d (output_file args))"
    and "is_dir w d"
    and "\<And>n. n \<in> set (listdir w d) \<Longrightarrow> endswith n ''.json'' \<Longrightarrow>
            resolve w (joinpath d n) = resolve w out"
    and "writable w out (JArr [])"
  shows "main_combine args w =
           (Inr (),
            w\<lparr>made_dirs := made_dirs w @ [out],
              written := AList.update out (Complete (JArr [])) (written w),
              stdout := stdout w @ [''Combined 0 file(s) into '' @ out @ '' with 0 item(s).'']\<rparr>)"
proof -
  have "filter (\<lambda>n. endswith n ''.json'' \<and> resolve w (joinpath d n) \<noteq> resolve w out)
          (listdir w d) = []"
    using assms(4) by (auto simp: filter_empty_conv)
  then have c: "collect_json_files w d out = []" by (simp add: collect_json_files_eq)
  have z: "str_nat 0 = ''0''" by code_simp
  show ?thesis
    unfolding main_combine_unfold[OF assms(1,2,3)] c
    by (simp add: write_ok[OF assms(5)] summary_def z)
qed

theorem empty_directory_writes_empty_array_witness:
  "is_dir (demo_world [''notes.txt'', ''all.json'']) ''/data'' \<and>
   collect_json_files (demo_world [''notes.txt'', ''all.json'']) ''/data'' ''/data/all.json'' = [] \<and>
   writable (demo_world [''notes.txt'', ''all.json'']) ''/data/all.json'' (JArr []) \<and>
   main_combine \<lparr>directory_arg = ''/data'', output_file = ''all.json''\<rparr>
       (demo_world [''notes.txt'', ''all.json''])
     = (Inr (),
        (demo_world [''notes.txt'', ''all.json''])
          \<lparr>made_dirs := [''/data/all.json''],
            written := [(''/data/all.json'', Complete (JArr []))],
            stdout := [''Combined 0 file(s) into /data/all.json with 0 item(s).'']\<rparr>)"
proof -
  let ?w = "demo_world [''notes.txt'', ''all.json'']"
  let ?args = "\<lparr>directory_arg = ''/data'', output_file = ''all.json''\<rparr>"
  have d: "''/data'' = resolve ?w (directory_arg ?args)" by (simp add: demo_world_def)
  have o: "''/data/all.json'' = (if is_absolute (output_file ?args) then output_file ?args
                else path_div ''/data'' (output_file ?args))" by code_simp
  have i: "is_dir ?w ''/data''" by (simp add: demo_world_def)
  have j: "joinpath ''/data'' ''all.json'' = ''/data/all.json''" by code_simp
  have e: "\<not> endswith ''notes.txt'' ''.json''" by code_simp
  have a: "\<And>n. n \<in> set (listdir ?w ''/data'') \<Longrightarrow> endswith n ''.json'' \<Longrightarrow>
            resolve ?w (joinpath ''/data'' n) = resolve ?w ''/data/all.json''"
    using j e by (auto simp: demo_world_def)
  have c: "collect_json_files ?w ''/data'' ''/data/all.json'' = []" by code_simp
  have wr: "writable ?w ''/data/all.json'' (JArr [])"
    by (simp add: writable_def demo_world_def)
  have f: "made_dirs ?w = []"
    "written ?w = [(''/data/all.json'', Complete (JArr [JStr ''old'']))]"
    "stdout ?w = []" by (simp_all add: demo_world_def)
  from empty_directory_writes_empty_array[OF d o i a wr]
  have m: "main_combine ?args ?w
     = (Inr (), ?w\<lparr>made_dirs := [''/data/all.json''],
            written := [(''/data/all.json'', Complete (JArr []))],
            stdout := [''Combined 0 file(s) into /data/all.json with 0 item(s).'']\<rparr>)"
    unfolding f by simp
  from i c wr m show ?thesis by (intro conjI)
qed

text \<open>
  An existing directory without candidate files, and the output path \<open>.\<close>: the output path
  is the directory itself, \<open>open\<close> raises \<open>IsADirectoryError\<close>, and the run writes no file
  and reports nothing.
\<close>

theorem output_is_directory_counterexample:
  "is_dir (demo_world [''notes.txt'']) ''/data'' \<and>
   collect_json_files (demo_world [''notes.txt'']) ''/data'' ''/data'' = [] \<and>
   fst (main_combine \<lparr>directory_arg = ''/data'', output_file = ''.''\<rparr>
          (demo_world [''notes.txt'']))
     = Inl (IsADirectoryError ''/data'') \<and>
   written (snd (main_combine \<lparr>directory_arg = ''/data'', output_file = ''.''\<rparr>
                   (demo_world [''notes.txt''])))
     = [] \<and>
   stdout (snd (main_combine \<lparr>directory_arg = ''/data'', output_file = ''.''\<rparr>
                  (demo_world [''notes.txt'']))) = []"
  by code_simp

end
